theory Spec2Isabelle
  imports Main "HOL-Library.AList" "HOL-Library.Sublist"
begin

section \<open>Python values\<close>

subsection \<open>Exceptions\<close>

text \<open>
  Three modules define a class named \<open>MCPOverloadedError\<close>: \<open>utils\<close>,
  \<open>reddit_scraper\<close> (its own definition shadows the one imported by
  \<open>from utils import *\<close>) and \<open>twitter_scraper\<close>. They are three distinct classes, so the
  constructor carries the defining module. \<open>RequestException\<close> stands for
  \<open>requests.exceptions.RequestException\<close> and its subclasses, \<open>HTTPException\<close> for FastAPI's
  exception with its status code and detail, \<open>RetryError\<close> for tenacity's wrapper around the
  last failed attempt (its string is the rendering of that attempt, which the runtime
  supplies), and \<open>PyException cls msg\<close> for an exception of any other class \<open>cls\<close> whose
  \<open>str\<close> is \<open>msg\<close>.
\<close>

datatype py_module = Utils | RedditScraper | TwitterScraper

datatype exn =
    MCPOverloadedError py_module string
  | RequestException string
  | HTTPException nat string
  | RetryError exn string
  | PyException string string

fun show_nat :: "nat \<Rightarrow> string" where
  "show_nat n =
     (if n < 10 then [''0123456789'' ! n]
      else show_nat (n div 10) @ [''0123456789'' ! (n mod 10)])"

declare show_nat.simps [simp del]

text \<open>\<open>str(e)\<close>. Starlette renders an \<open>HTTPException\<close> as \<open>"{status_code}: {detail}"\<close>.\<close>

fun str_exn :: "exn \<Rightarrow> string" where
  "str_exn (MCPOverloadedError m msg) = msg"
| "str_exn (RequestException msg) = msg"
| "str_exn (HTTPException status_code detail) = show_nat status_code @ '': '' @ detail"
| "str_exn (RetryError e rendering) = ''RetryError['' @ rendering @ '']''"
| "str_exn (PyException cls msg) = msg"

subsection \<open>Strings\<close>

text \<open>
  A string is the list of the bytes of its UTF-8 encoding. \<open>s.startswith(p)\<close>:
\<close>

fun startswith :: "string \<Rightarrow> string \<Rightarrow> bool" where
  "startswith s [] = True"
| "startswith [] (p # ps) = False"
| "startswith (c # cs) (p # ps) = (c = p \<and> startswith cs ps)"

text \<open>
  The whitespace of Python's \<open>str\<close>, each character in its UTF-8 encoding: the codes
  9 to 13, 28 to 31 and 32, and U+0085, U+00A0, U+1680, U+2000 to U+200A, U+2028,
  U+2029, U+202F, U+205F and U+3000.
\<close>

definition whitespace :: "string list" where
  "whitespace =
     [[CHR 0x09], [CHR 0x0A], [CHR 0x0B], [CHR 0x0C], [CHR 0x0D],
      [CHR 0x1C], [CHR 0x1D], [CHR 0x1E], [CHR 0x1F], [CHR 0x20],
      [CHR 0xC2, CHR 0x85], [CHR 0xC2, CHR 0xA0],
      [CHR 0xE1, CHR 0x9A, CHR 0x80],
      [CHR 0xE2, CHR 0x80, CHR 0x80], [CHR 0xE2, CHR 0x80, CHR 0x81],
      [CHR 0xE2, CHR 0x80, CHR 0x82], [CHR 0xE2, CHR 0x80, CHR 0x83],
      [CHR 0xE2, CHR 0x80, CHR 0x84], [CHR 0xE2, CHR 0x80, CHR 0x85],
      [CHR 0xE2, CHR 0x80, CHR 0x86], [CHR 0xE2, CHR 0x80, CHR 0x87],
      [CHR 0xE2, CHR 0x80, CHR 0x88], [CHR 0xE2, CHR 0x80, CHR 0x89],
      [CHR 0xE2, CHR 0x80, CHR 0x8A],
      [CHR 0xE2, CHR 0x80, CHR 0xA8], [CHR 0xE2, CHR 0x80, CHR 0xA9],
      [CHR 0xE2, CHR 0x80, CHR 0xAF],
      [CHR 0xE2, CHR 0x81, CHR 0x9F],
      [CHR 0xE3, CHR 0x80, CHR 0x80]]"

text \<open>
  Removing from the front of a string, again and again, whichever of the given byte
  sequences it starts with.
\<close>

fun lstrip_by :: "string list \<Rightarrow> string \<Rightarrow> string" where
  "lstrip_by seqs [] = []"
| "lstrip_by seqs (c # cs) =
     (case find (startswith (c # cs)) seqs of
        None \<Rightarrow> c # cs
      | Some [] \<Rightarrow> c # cs
      | Some (w # ws) \<Rightarrow> lstrip_by seqs (drop (length ws) cs))"

text \<open>
  \<open>str.strip()\<close> removes the leading and the trailing whitespace characters; at the
  end of the string the encodings are matched backwards.
\<close>

definition strip :: "string \<Rightarrow> string" where
  "strip s = rev (lstrip_by (map rev whitespace) (rev (lstrip_by whitespace s)))"

text \<open>\<open>s.split(sep)\<close> for a separator of one character: never an empty list.\<close>

fun split_char :: "char \<Rightarrow> string \<Rightarrow> string list" where
  "split_char sep [] = [[]]"
| "split_char sep (c # cs) =
     (if c = sep then [] # split_char sep cs
      else (case split_char sep cs of
              [] \<Rightarrow> [[c]]
            | p # ps \<Rightarrow> (c # p) # ps))"

text \<open>\<open>sep.join(parts)\<close>.\<close>

fun join :: "string \<Rightarrow> string list \<Rightarrow> string" where
  "join sep [] = []"
| "join sep [p] = p"
| "join sep (p # q # ps) = p @ sep @ join sep (q # ps)"

text \<open>\<open>needle in haystack\<close> for strings is \<^const>\<open>sublist\<close>.\<close>

subsection \<open>Dictionaries\<close>

text \<open>
  A \<open>dict\<close> is an association list in insertion order with distinct keys:
  \<open>d[k] = v\<close> is \<^const>\<open>AList.update\<close> (the value is replaced in place when the key is
  there, the pair is appended otherwise), \<open>d.get(k)\<close> is \<^const>\<open>map_of\<close>, and
  \<open>d[k]\<close> raises \<open>KeyError\<close> on a missing key.
\<close>

type_synonym topic_result = "(string \<times> string) list"
type_synonym analysis = "(string \<times> topic_result) list"

definition py_repr :: "string \<Rightarrow> string" where
  "py_repr s = [CHR 0x27] @ s @ [CHR 0x27]"

definition getitem :: "(string \<times> 'v) list \<Rightarrow> string \<Rightarrow> exn + 'v" where
  "getitem d k =
     (case map_of d k of
        None \<Rightarrow> Inl (PyException ''KeyError'' (py_repr k))
      | Some v \<Rightarrow> Inr v)"

section \<open>The retry decorator\<close>

text \<open>
  \<open>tenacity.retry(stop=stop_after_attempt(n), retry=\<dots>)\<close> around a function: attempts
  are numbered from 1; a returned value ends the loop; a raised exception that the \<open>retry\<close>
  predicate rejects is raised again at once; one that it accepts ends the loop when
  \<open>attempt_number \<ge> n\<close> and starts the next attempt otherwise. The waits between attempts
  take time and change nothing else. \<open>fn k\<close> is what the \<open>k\<close>-th attempt does; the
  second component of the result is the number of attempts made.
\<close>

datatype 'a outcome = Returned 'a | Propagated exn | GaveUp exn

function tenacity_attempts ::
  "nat \<Rightarrow> (exn \<Rightarrow> bool) \<Rightarrow> (nat \<Rightarrow> exn + 'a) \<Rightarrow> nat \<Rightarrow> 'a outcome \<times> nat" where
  "tenacity_attempts max_attempt_number retry_if fn attempt_number =
     (case fn attempt_number of
        Inr v \<Rightarrow> (Returned v, attempt_number)
      | Inl e \<Rightarrow>
          if \<not> retry_if e then (Propagated e, attempt_number)
          else if attempt_number \<ge> max_attempt_number then (GaveUp e, attempt_number)
          else tenacity_attempts max_attempt_number retry_if fn (Suc attempt_number))"
  by pat_completeness auto
termination
  by (relation "measure (\<lambda>(m, r, f, a). m - a)") auto

declare tenacity_attempts.simps [simp del]

text \<open>With \<open>reraise=True\<close> the last exception is raised when the attempts are used up.\<close>

definition retry_reraise ::
  "nat \<Rightarrow> (exn \<Rightarrow> bool) \<Rightarrow> (nat \<Rightarrow> exn + 'a) \<Rightarrow> (exn + 'a) \<times> nat" where
  "retry_reraise n retry_if fn =
     (case tenacity_attempts n retry_if fn 1 of
        (Returned v, k) \<Rightarrow> (Inr v, k)
      | (Propagated e, k) \<Rightarrow> (Inl e, k)
      | (GaveUp e, k) \<Rightarrow> (Inl e, k))"

text \<open>
  Without it (the default) a \<open>RetryError\<close> around the last attempt is raised instead;
  \<open>future_repr\<close> is the runtime's rendering of that attempt.
\<close>

definition retry_wrap ::
  "(exn \<Rightarrow> string) \<Rightarrow> nat \<Rightarrow> (exn \<Rightarrow> bool) \<Rightarrow> (nat \<Rightarrow> exn + 'a) \<Rightarrow> (exn + 'a) \<times> nat" where
  "retry_wrap future_repr n retry_if fn =
     (case tenacity_attempts n retry_if fn 1 of
        (Returned v, k) \<Rightarrow> (Inr v, k)
      | (Propagated e, k) \<Rightarrow> (Inl e, k)
      | (GaveUp e, k) \<Rightarrow> (Inl (RetryError e (future_repr e)), k))"

text \<open>
  The retry policy in the words of the specification, for a result with its number of
  attempts: some attempt \<open>k\<close> of at most \<open>K\<close> decides; the result is what attempt
  \<open>k\<close> did (its value, or its exception); every attempt before it failed with a
  retryable exception; and attempt \<open>k\<close> itself failed with a retryable exception only
  if it was the last one allowed.
\<close>

definition retry_policy ::
  "nat \<Rightarrow> (exn \<Rightarrow> bool) \<Rightarrow> (nat \<Rightarrow> exn + 'a) \<Rightarrow> (exn + 'a) \<times> nat \<Rightarrow> bool" where
  "retry_policy K retryable attempt result =
     (\<exists>k \<in> {1..K}.
        snd result = k \<and> fst result = attempt k \<and>
        (\<forall>j \<in> {1..<k}. case attempt j of Inl e \<Rightarrow> retryable e | Inr v \<Rightarrow> False) \<and>
        (case attempt k of Inl e \<Rightarrow> retryable e \<longrightarrow> k = K | Inr v \<Rightarrow> True))"

section \<open>The Reddit collector (\<open>reddit_scraper.py\<close>)\<close>

text \<open>
  A message is a role and a content. An agent is what \<open>agent.ainvoke\<close> does: given the
  position of the topic in the batch (counted from 1), the number of the attempt and the
  messages, it raises or returns the content of the last message of its response. The
  outside world may answer each call differently, hence the two numbers.
\<close>

type_synonym message = "string \<times> string"
type_synonym agent = "nat \<Rightarrow> nat \<Rightarrow> message list \<Rightarrow> exn + string"

definition reddit_system_content :: "string \<Rightarrow> string" where
  "reddit_system_content two_weeks_ago_str =
     ''You are a Reddit analysis expert. Use available tools to:'' @ [CHR 0x0A] @
     ''                1. Find top 2 posts about the given topic BUT only after '' @
     two_weeks_ago_str @
     '', NOTHING before this date strictly!'' @ [CHR 0x0A] @
     ''                2. Analyze their content and sentiment'' @ [CHR 0x0A] @
     ''                3. Create a summary of discussions and overall sentiment''"

definition reddit_user_content :: "string \<Rightarrow> string" where
  "reddit_user_content topic =
     ''Analyze Reddit posts about '' @ [CHR 0x27] @
     topic @
     [CHR 0x27] @ (''. '' @ [CHR 0x0A] @
     ''                Provide a comprehensive summary including:'' @ [CHR 0x0A] @
     ''                - Main discussion points'' @ [CHR 0x0A] @
     ''                - Key opinions expressed'' @ [CHR 0x0A] @
     ''                - Any notable trends or patterns'' @ [CHR 0x0A] @
     ''                - Summarize the overall narrative, discussion '' @
     ''points and also quote interesting comments without mentioning names'' @
     [CHR 0x0A] @ ''                - Overall sentiment (positive/neutral/negative)'')"

definition reddit_messages :: "string \<Rightarrow> string \<Rightarrow> message list" where
  "reddit_messages two_weeks_ago_str topic =
     [(''system'', reddit_system_content two_weeks_ago_str),
      (''user'', reddit_user_content topic)]"

text \<open>The loop of \<open>ainvoke\<close> over the messages: the last system and the last user content.\<close>

fun scan_messages :: "message list \<Rightarrow> string \<times> string \<Rightarrow> string \<times> string" where
  "scan_messages [] acc = acc"
| "scan_messages ((role, content) # msgs) (system_message, user_message) =
     scan_messages msgs
       (if role = ''system'' then (content, user_message)
        else if role = ''user'' then (system_message, content)
        else (system_message, user_message))"

text \<open>\<open>user_message.split("'")[1] if "'" in user_message else "the topic"\<close>.\<close>

definition quoted_topic :: "string \<Rightarrow> exn + string" where
  "quoted_topic user_message =
     (if CHR 0x27 \<in> set user_message then
        (case split_char (CHR 0x27) user_message of
           p # q # ps \<Rightarrow> Inr q
         | _ \<Rightarrow> Inl (PyException ''IndexError'' ''list index out of range''))
      else Inr ''the topic'')"

text \<open>
  \<open>GeminiAgent.ainvoke\<close>: \<open>generate_content\<close> is the model call together with the read of
  \<open>response.text\<close>. Whatever the \<open>try\<close> block raises is caught, and the agent answers with
  an unavailability sentence for the topic it reads back from the user message.
\<close>

definition GeminiAgent_ainvoke :: "(nat \<Rightarrow> nat \<Rightarrow> string \<Rightarrow> exn + string) \<Rightarrow> agent" where
  "GeminiAgent_ainvoke generate_content idx attempt messages =
     (case scan_messages messages ([], []) of
        (system_message, user_message) \<Rightarrow>
          (case (case generate_content idx attempt
                        (system_message @ [CHR 0x0A, CHR 0x0A] @ user_message) of
                   Inl e \<Rightarrow> Inl e
                 | Inr text \<Rightarrow>
                     (case quoted_topic user_message of
                        Inl e \<Rightarrow> Inl e
                      | Inr topic \<Rightarrow> Inr text)) of
             Inr text \<Rightarrow> Inr text
           | Inl e \<Rightarrow>
               (case quoted_topic user_message of
                  Inl e' \<Rightarrow> Inl e'
                | Inr topic \<Rightarrow>
                    Inr (''Reddit discussions about '' @ topic @
                         '' are currently unavailable.''))))"

text \<open>
  The body of \<open>process_topic\<close>, one attempt: an exception of the agent whose string
  contains \<open>Overloaded\<close> becomes this module's \<open>MCPOverloadedError\<close>, any other is raised
  again as it is.
\<close>

definition process_topic_attempt :: "string \<Rightarrow> agent \<Rightarrow> nat \<Rightarrow> string \<Rightarrow> nat \<Rightarrow> exn + string" where
  "process_topic_attempt two_weeks_ago_str agent idx topic attempt =
     (case agent idx attempt (reddit_messages two_weeks_ago_str topic) of
        Inr content \<Rightarrow> Inr content
      | Inl e \<Rightarrow>
          if sublist ''Overloaded'' (str_exn e)
          then Inl (MCPOverloadedError RedditScraper ''Service overloaded'')
          else Inl e)"

text \<open>\<open>retry_if_exception_type(MCPOverloadedError)\<close>, the class of \<open>reddit_scraper\<close>.\<close>

fun reddit_retryable :: "exn \<Rightarrow> bool" where
  "reddit_retryable (MCPOverloadedError m msg) = (m = RedditScraper)"
| "reddit_retryable e = False"

text \<open>
  \<open>process_topic\<close> under its decorator: \<open>stop_after_attempt(3)\<close>,
  \<open>retry_if_exception_type(MCPOverloadedError)\<close>, \<open>reraise=True\<close>.
\<close>

definition process_topic :: "string \<Rightarrow> agent \<Rightarrow> nat \<Rightarrow> string \<Rightarrow> (exn + string) \<times> nat" where
  "process_topic two_weeks_ago_str agent idx topic =
     retry_reraise 3 reddit_retryable (process_topic_attempt two_weeks_ago_str agent idx topic)"

definition reddit_unavailable :: "string \<Rightarrow> string" where
  "reddit_unavailable topic = ''Reddit discussions about '' @ topic @ '' are currently unavailable.''"

text \<open>The \<open>for\<close> loop of \<open>scrape_reddit_topics\<close>: the first exception leaves the loop.\<close>

fun reddit_loop :: "string \<Rightarrow> agent \<Rightarrow> nat \<Rightarrow> string list \<Rightarrow> topic_result \<Rightarrow> exn + topic_result" where
  "reddit_loop two_weeks_ago_str agent idx [] reddit_results = Inr reddit_results"
| "reddit_loop two_weeks_ago_str agent idx (topic # topics) reddit_results =
     (case fst (process_topic two_weeks_ago_str agent idx topic) of
        Inl e \<Rightarrow> Inl e
      | Inr summary \<Rightarrow>
          reddit_loop two_weeks_ago_str agent (Suc idx) topics
            (AList.update topic summary reddit_results))"

text \<open>
  \<open>scrape_reddit_topics\<close> with the session and the agent as parameters:
  \<open>session_open\<close> is the exception, if any, of opening the MCP session
  (\<open>stdio_client\<close>, \<open>ClientSession\<close>, \<open>initialize\<close>, \<open>load_mcp_tools\<close>, the construction
  of the agent); closing the session is taken to be silent. The handler of the outer
  \<open>try\<close> starts from an empty dictionary and gives every topic the unavailability sentence.
\<close>

definition scrape_reddit_topics_with ::
  "string \<Rightarrow> exn option \<Rightarrow> agent \<Rightarrow> string list \<Rightarrow> exn + analysis" where
  "scrape_reddit_topics_with two_weeks_ago_str session_open agent topics =
     (case (case session_open of
              Some e \<Rightarrow> Inl e
            | None \<Rightarrow> reddit_loop two_weeks_ago_str agent 1 topics []) of
        Inr reddit_results \<Rightarrow> Inr [(''reddit_analysis'', reddit_results)]
      | Inl e \<Rightarrow>
          Inr [(''reddit_analysis'',
                fold (\<lambda>topic reddit_results.
                        AList.update topic (reddit_unavailable topic) reddit_results)
                     topics [])])"

text \<open>The function as the module has it: the agent is \<open>GeminiAgent(model, tools)\<close>.\<close>

definition scrape_reddit_topics ::
  "string \<Rightarrow> exn option \<Rightarrow> (nat \<Rightarrow> nat \<Rightarrow> string \<Rightarrow> exn + string) \<Rightarrow> string list \<Rightarrow> exn + analysis" where
  "scrape_reddit_topics two_weeks_ago_str session_open generate_content topics =
     scrape_reddit_topics_with two_weeks_ago_str session_open
       (GeminiAgent_ainvoke generate_content) topics"

section \<open>The Twitter collector (\<open>twitter_scraper.py\<close>)\<close>

definition twitter_system_content :: string where
  "twitter_system_content =
     ''You are a Twitter analysis expert. Use available tools to:'' @ [CHR 0x0A] @
     ''                1. Find trending tweets about the given topic '' @
     ''from the last 24-48 hours'' @ [CHR 0x0A] @
     ''                2. Analyze tweet content, engagement metrics, '' @
     ''and sentiment'' @ [CHR 0x0A] @
     ''                3. Identify key influencers and viral discussions'' @ [CHR 0x0A] @
     ''                4. Create a summary of Twitter conversations '' @
     ''and overall sentiment''"

definition twitter_user_content :: "string \<Rightarrow> string" where
  "twitter_user_content topic =
     ''Analyze Twitter/X posts about '' @ [CHR 0x27] @
     topic @
     [CHR 0x27] @ (''. '' @ [CHR 0x0A] @
     ''                Provide a comprehensive summary including:'' @ [CHR 0x0A] @
     ''                - Top trending tweets and their key messages'' @ [CHR 0x0A] @
     ''                - Engagement levels (likes, retweets, replies)'' @ [CHR 0x0A] @
     ''                - Sentiment analysis (positive/negative/neutral)'' @ [CHR 0x0A] @
     ''                - Key influencers and their perspectives'' @ [CHR 0x0A] @
     ''                - Notable hashtags and trends'' @ [CHR 0x0A] @
     ''                - Quote interesting tweets without mentioning usernames'' @
     [CHR 0x0A] @ ''                - Overall Twitter narrative and discussion points'')"

definition twitter_messages :: "string \<Rightarrow> message list" where
  "twitter_messages topic =
     [(''system'', twitter_system_content), (''user'', twitter_user_content topic)]"

definition TwitterAgent_ainvoke :: "(nat \<Rightarrow> nat \<Rightarrow> string \<Rightarrow> exn + string) \<Rightarrow> agent" where
  "TwitterAgent_ainvoke generate_content idx attempt messages =
     (case scan_messages messages ([], []) of
        (system_message, user_message) \<Rightarrow>
          (case (case generate_content idx attempt
                        (system_message @ [CHR 0x0A, CHR 0x0A] @ user_message) of
                   Inl e \<Rightarrow> Inl e
                 | Inr text \<Rightarrow>
                     (case quoted_topic user_message of
                        Inl e \<Rightarrow> Inl e
                      | Inr topic \<Rightarrow> Inr text)) of
             Inr text \<Rightarrow> Inr text
           | Inl e \<Rightarrow>
               (case quoted_topic user_message of
                  Inl e' \<Rightarrow> Inl e'
                | Inr topic \<Rightarrow>
                    Inr (''Twitter discussions about '' @ topic @
                         '' are currently unavailable.''))))"

definition process_twitter_topic_attempt :: "agent \<Rightarrow> nat \<Rightarrow> string \<Rightarrow> nat \<Rightarrow> exn + string" where
  "process_twitter_topic_attempt agent idx topic attempt =
     (case agent idx attempt (twitter_messages topic) of
        Inr content \<Rightarrow> Inr content
      | Inl e \<Rightarrow>
          if sublist ''Overloaded'' (str_exn e)
          then Inl (MCPOverloadedError TwitterScraper ''Service overloaded'')
          else Inl e)"

fun twitter_retryable :: "exn \<Rightarrow> bool" where
  "twitter_retryable (MCPOverloadedError m msg) = (m = TwitterScraper)"
| "twitter_retryable e = False"

definition process_twitter_topic :: "agent \<Rightarrow> nat \<Rightarrow> string \<Rightarrow> (exn + string) \<times> nat" where
  "process_twitter_topic agent idx topic =
     retry_reraise 3 twitter_retryable (process_twitter_topic_attempt agent idx topic)"

definition twitter_unavailable :: "string \<Rightarrow> string" where
  "twitter_unavailable topic = ''Twitter discussions about '' @ topic @ '' are currently unavailable.''"

fun twitter_loop :: "agent \<Rightarrow> nat \<Rightarrow> string list \<Rightarrow> topic_result \<Rightarrow> exn + topic_result" where
  "twitter_loop agent idx [] twitter_results = Inr twitter_results"
| "twitter_loop agent idx (topic # topics) twitter_results =
     (case fst (process_twitter_topic agent idx topic) of
        Inl e \<Rightarrow> Inl e
      | Inr summary \<Rightarrow>
          twitter_loop agent (Suc idx) topics (AList.update topic summary twitter_results))"

definition scrape_twitter_topics_with :: "exn option \<Rightarrow> agent \<Rightarrow> string list \<Rightarrow> exn + analysis" where
  "scrape_twitter_topics_with session_open agent topics =
     (case (case session_open of
              Some e \<Rightarrow> Inl e
            | None \<Rightarrow> twitter_loop agent 1 topics []) of
        Inr twitter_results \<Rightarrow> Inr [(''twitter_analysis'', twitter_results)]
      | Inl e \<Rightarrow>
          Inr [(''twitter_analysis'',
                fold (\<lambda>topic twitter_results.
                        AList.update topic (twitter_unavailable topic) twitter_results)
                     topics [])])"

definition scrape_twitter_topics ::
  "exn option \<Rightarrow> (nat \<Rightarrow> nat \<Rightarrow> string \<Rightarrow> exn + string) \<Rightarrow> string list \<Rightarrow> exn + analysis" where
  "scrape_twitter_topics session_open generate_content topics =
     scrape_twitter_topics_with session_open (TwitterAgent_ainvoke generate_content) topics"

section \<open>Helpers of the news path (\<open>utils.py\<close>)\<close>

text \<open>
  What lies outside the repository is a parameter: \<open>quote_plus\<close> is
  \<open>urllib.parse.quote_plus\<close>; \<open>brightdata_post idx url\<close> is the POST to the BrightData
  API for the \<open>idx\<close>-th topic with \<open>raise_for_status\<close> and the read of \<open>response.text\<close>;
  \<open>requests_get idx url\<close> is the direct GET with the read of \<open>.text\<close>;
  \<open>soup_get_text\<close> is BeautifulSoup's \<open>get_text(separator="\n")\<close> of the parsed page;
  \<open>news_model idx prompt\<close> is the Gemini call of the summariser with the read of
  \<open>response.text\<close>; \<open>future_repr\<close> is the rendering of a failed attempt inside a
  \<open>RetryError\<close>.
\<close>

record news_env =
  quote_plus :: "string \<Rightarrow> string"
  brightdata_post :: "nat \<Rightarrow> string \<Rightarrow> exn + string"
  requests_get :: "nat \<Rightarrow> string \<Rightarrow> exn + string"
  soup_get_text :: "string \<Rightarrow> string"
  news_model :: "nat \<Rightarrow> string \<Rightarrow> exn + string"
  future_repr :: "exn \<Rightarrow> string"

definition generate_valid_news_url :: "news_env \<Rightarrow> string \<Rightarrow> string" where
  "generate_valid_news_url env keyword =
     ''https://news.google.com/search?q='' @ quote_plus env keyword @ ''&tbs=sbd:1''"

definition generate_news_urls_to_scrape :: "news_env \<Rightarrow> string list \<Rightarrow> (string \<times> string) list" where
  "generate_news_urls_to_scrape env list_of_keywords =
     fold (\<lambda>keyword valid_urls_dict.
             AList.update keyword (generate_valid_news_url env keyword) valid_urls_dict)
          list_of_keywords []"

text \<open>A \<open>RequestException\<close> of the POST becomes an \<open>HTTPException\<close>; nothing else is caught.\<close>

definition scrape_with_brightdata :: "news_env \<Rightarrow> nat \<Rightarrow> string \<Rightarrow> exn + string" where
  "scrape_with_brightdata env idx url =
     (case brightdata_post env idx url of
        Inr text \<Rightarrow> Inr text
      | Inl e \<Rightarrow>
          (case e of
             RequestException msg \<Rightarrow> Inl (HTTPException 500 (''BrightData error: '' @ str_exn e))
           | _ \<Rightarrow> Inl e))"

definition clean_html_to_text :: "news_env \<Rightarrow> string \<Rightarrow> string" where
  "clean_html_to_text env html_content = strip (soup_get_text env html_content)"

text \<open>
  The loop of \<open>extract_headlines\<close> over the stripped, non-empty lines, on the pair of
  \<open>headlines\<close> and \<open>current_block\<close>: a line \<open>More\<close> closes a non-empty block, whose first
  line is a headline.
\<close>

fun headline_step :: "string \<Rightarrow> string list \<times> string list \<Rightarrow> string list \<times> string list" where
  "headline_step line (headlines, current_block) =
     (if line = ''More'' then
        (case current_block of
           [] \<Rightarrow> (headlines, current_block)
         | first # rest \<Rightarrow> (headlines @ [first], []))
      else (headlines, current_block @ [line]))"

definition extract_headlines :: "string \<Rightarrow> string" where
  "extract_headlines cleaned_text =
     (case fold headline_step
             (filter (\<lambda>line. line \<noteq> []) (map strip (split_char (CHR 0x0A) cleaned_text)))
             ([], []) of
        (headlines, current_block) \<Rightarrow>
          join [CHR 0x0A]
            (case current_block of
               [] \<Rightarrow> headlines
             | first # rest \<Rightarrow> headlines @ [first]))"

definition news_system_prompt :: string where
  "news_system_prompt =
     [CHR 0x0A] @ ''You are my personal news editor and scriptwriter for a news '' @
     ''podcast. Your job is to turn raw headlines into a clean, professional, '' @
     ''and TTS-friendly news script.'' @ [CHR 0x0A, CHR 0x0A] @
     ''The final output will be read aloud by a news anchor or text-to-speech '' @
     ''engine. So:'' @ [CHR 0x0A] @
     ''- Do not include any special characters, emojis, formatting '' @
     ''symbols, or markdown.'' @ [CHR 0x0A] @
     ''- Do not add any preamble or framing like '' @ [CHR 0x22] @ ''Here'' @ [CHR 0x27] @
     ''s your summary'' @ [CHR 0x22] @ '' or '' @ [CHR 0x22] @ ''Let me explain'' @
     [CHR 0x22] @ ''.'' @ [CHR 0x0A] @
     ''- Write in full, clear, spoken-language paragraphs.'' @ [CHR 0x0A] @
     ''- Keep the tone formal, professional, and broadcast-style '' @
     [CHR 0xE2, CHR 0x80, CHR 0x94] @ '' just like a real TV news script.'' @ [CHR 0x0A] @
     ''- Focus on the most important headlines and turn them into short, '' @
     ''informative news segments that sound natural when spoken.'' @ [CHR 0x0A] @
     ''- Start right away with the actual script, using transitions '' @
     ''between topics if needed.'' @ [CHR 0x0A, CHR 0x0A] @
     ''Remember: Your only output should be a clean script that is '' @
     ''ready to be read out loud.'' @ [CHR 0x0A]"

text \<open>Every failure of the summariser's \<open>try\<close> block becomes an \<open>HTTPException\<close>.\<close>

definition summarize_with_gemini_news_script :: "news_env \<Rightarrow> nat \<Rightarrow> string \<Rightarrow> exn + string" where
  "summarize_with_gemini_news_script env idx headlines =
     (case news_model env idx (news_system_prompt @ [CHR 0x0A, CHR 0x0A] @ headlines) of
        Inr text \<Rightarrow> Inr text
      | Inl e \<Rightarrow> Inl (HTTPException 500 (''Gemini error: '' @ str_exn e)))"

section \<open>The news collector (\<open>news_scraper.py\<close>)\<close>

text \<open>The stand-in of \<open>scrape_news\<close> for empty headlines, and its unavailability sentence.\<close>

definition fallback_headline :: "string \<Rightarrow> string" where
  "fallback_headline topic = ''Latest news about '' @ topic"

definition news_unavailable :: "string \<Rightarrow> string" where
  "news_unavailable topic =
     ''We couldn'' @ [CHR 0x27] @ ''t retrieve the latest news about '' @ topic @ '' at this time.''"

text \<open>
  The inner \<open>try\<close> of \<open>scrape_news\<close>: BrightData first, and on any exception of it the
  direct request for the same URL.
\<close>

definition fetch_search_html :: "news_env \<Rightarrow> nat \<Rightarrow> string \<Rightarrow> exn + string" where
  "fetch_search_html env idx url =
     (case scrape_with_brightdata env idx url of
        Inr search_html \<Rightarrow> Inr search_html
      | Inl bright_error \<Rightarrow> requests_get env idx url)"

text \<open>The headlines handed to the summariser: the stand-in when none were found.\<close>

definition headlines_or_fallback :: "string \<Rightarrow> string \<Rightarrow> string" where
  "headlines_or_fallback topic headlines =
     (if headlines = [] \<or> strip headlines = [] then fallback_headline topic else headlines)"

text \<open>The outer \<open>try\<close> of \<open>scrape_news\<close> for one topic: the summary, or the exception.\<close>

definition scrape_news_topic :: "news_env \<Rightarrow> nat \<Rightarrow> string \<Rightarrow> exn + string" where
  "scrape_news_topic env idx topic =
     (case getitem (generate_news_urls_to_scrape env [topic]) topic of
        Inl e \<Rightarrow> Inl e
      | Inr url \<Rightarrow>
          (case fetch_search_html env idx url of
             Inl e \<Rightarrow> Inl e
           | Inr search_html \<Rightarrow>
               summarize_with_gemini_news_script env idx
                 (headlines_or_fallback topic
                    (extract_headlines (clean_html_to_text env search_html)))))"

text \<open>What the loop stores for a topic: the handler of the outer \<open>try\<close> catches everything.\<close>

definition scrape_news_entry :: "news_env \<Rightarrow> nat \<Rightarrow> string \<Rightarrow> string" where
  "scrape_news_entry env idx topic =
     (case scrape_news_topic env idx topic of
        Inr summary \<Rightarrow> summary
      | Inl e \<Rightarrow> news_unavailable topic)"

text \<open>The \<open>for\<close> loop of \<open>scrape_news\<close> over \<open>enumerate(topics, 1)\<close>.\<close>

fun scrape_news_loop :: "news_env \<Rightarrow> nat \<Rightarrow> string list \<Rightarrow> topic_result \<Rightarrow> topic_result" where
  "scrape_news_loop env idx [] results = results"
| "scrape_news_loop env idx (topic # topics) results =
     scrape_news_loop env (Suc idx) topics
       (AList.update topic (scrape_news_entry env idx topic) results)"

definition scrape_news_body :: "news_env \<Rightarrow> string list \<Rightarrow> exn + analysis" where
  "scrape_news_body env topics = Inr [(''news_analysis'', scrape_news_loop env 1 topics [])]"

text \<open>
  \<open>NewsScraper.scrape_news\<close> under its decorator: \<open>stop_after_attempt(3)\<close>, the default
  \<open>retry\<close> predicate (every exception), no \<open>reraise\<close>.
\<close>

definition scrape_news :: "news_env \<Rightarrow> string list \<Rightarrow> (exn + analysis) \<times> nat" where
  "scrape_news env topics =
     retry_wrap (future_repr env) 3 (\<lambda>e. True) (\<lambda>attempt. scrape_news_body env topics)"

section \<open>The composer (\<open>generate_broadcast_news\<close> in \<open>utils.py\<close>)\<close>

definition system_prompt :: string where
  "system_prompt =
     [CHR 0x0A] @
     ''You are broadcast_news_writer, a professional virtual news reporter. '' @
     ''Generate natural, TTS-ready news reports using available sources:'' @
     [CHR 0x0A, CHR 0x0A] @ ''For each topic, STRUCTURE BASED ON AVAILABLE DATA:'' @
     [CHR 0x0A] @ ''1. If news exists: '' @ [CHR 0x22] @
     ''According to official reports...'' @ [CHR 0x22] @ '' + summary'' @ [CHR 0x0A] @
     ''2. If Reddit exists: '' @ [CHR 0x22] @ ''Online discussions on Reddit reveal...'' @
     [CHR 0x22] @ '' + summary  '' @ [CHR 0x0A] @ ''3. If Twitter exists: '' @ [CHR 0x22] @
     ''On Twitter, trending conversations show...'' @ [CHR 0x22] @ '' + summary'' @
     [CHR 0x0A] @ ''4. If multiple sources exist: Present news first, then social '' @
     ''media reactions'' @ [CHR 0x0A] @ ''5. If neither exists: Skip the topic (shouldn'' @
     [CHR 0x27] @ ''t happen)'' @ [CHR 0x0A, CHR 0x0A] @ ''Formatting rules:'' @
     [CHR 0x0A] @ ''- ALWAYS start directly with the content, NO INTRODUCTIONS'' @
     [CHR 0x0A] @ ''- Keep audio length 60-120 seconds per topic'' @ [CHR 0x0A] @
     ''- Use natural speech transitions like '' @ [CHR 0x22] @
     ''Meanwhile, on social media...'' @ [CHR 0x22, CHR 0x0A] @
     ''- Incorporate 1-2 short quotes from Reddit/Twitter when available'' @ [CHR 0x0A] @
     ''- Maintain neutral tone but highlight key sentiments'' @ [CHR 0x0A] @
     ''- End with '' @ [CHR 0x22] @ ''To wrap up this segment...'' @ [CHR 0x22] @
     '' summary'' @ [CHR 0x0A, CHR 0x0A] @
     ''Write in full paragraphs optimized for speech synthesis. Avoid markdown.'' @
     [CHR 0x0A]"

text \<open>
  \<open>data[key].get(topic) if data else ''\<close>: \<open>data\<close> is \<open>None\<close> or a dictionary, which is
  false when empty; \<open>.get\<close> gives \<open>None\<close> for a topic that is not a key.
\<close>

definition source_content :: "analysis option \<Rightarrow> string \<Rightarrow> string \<Rightarrow> exn + string option" where
  "source_content data key topic =
     (case data of
        None \<Rightarrow> Inr (Some [])
      | Some d \<Rightarrow>
          if d = [] then Inr (Some [])
          else (case getitem d key of
                  Inl e \<Rightarrow> Inl e
                | Inr topic_result \<Rightarrow> Inr (map_of topic_result topic)))"

text \<open>The truth value of a content: \<open>None\<close> and the empty string are false.\<close>

fun truthy :: "string option \<Rightarrow> bool" where
  "truthy None = False"
| "truthy (Some content) = (content \<noteq> [])"

text \<open>One entry of \<open>context\<close>: the label and the content, when the content is true.\<close>

fun context_entry :: "string \<Rightarrow> string option \<Rightarrow> string list" where
  "context_entry label None = []"
| "context_entry label (Some content) =
     (if content \<noteq> [] then [label @ [CHR 0x0A] @ content] else [])"

definition topic_context :: "string option \<Rightarrow> string option \<Rightarrow> string option \<Rightarrow> string list" where
  "topic_context news_content reddit_content twitter_content =
     context_entry ''OFFICIAL NEWS CONTENT:'' news_content @
     context_entry ''REDDIT DISCUSSION CONTENT:'' reddit_content @
     context_entry ''TWITTER DISCUSSION CONTENT:'' twitter_content"

definition topic_block :: "string \<Rightarrow> string list \<Rightarrow> string" where
  "topic_block topic context =
     ''TOPIC: '' @ topic @ [CHR 0x0A, CHR 0x0A] @ join [CHR 0x0A, CHR 0x0A] context"

text \<open>The \<open>for\<close> loop over the topics, on the list \<open>topic_blocks\<close>.\<close>

fun build_topic_blocks ::
  "analysis option \<Rightarrow> analysis option \<Rightarrow> analysis option \<Rightarrow> string list \<Rightarrow> string list
     \<Rightarrow> exn + string list" where
  "build_topic_blocks news_data reddit_data twitter_data [] topic_blocks = Inr topic_blocks"
| "build_topic_blocks news_data reddit_data twitter_data (topic # topics) topic_blocks =
     (case source_content news_data ''news_analysis'' topic of
        Inl e \<Rightarrow> Inl e
      | Inr news_content \<Rightarrow>
     (case source_content reddit_data ''reddit_analysis'' topic of
        Inl e \<Rightarrow> Inl e
      | Inr reddit_content \<Rightarrow>
     (case source_content twitter_data ''twitter_analysis'' topic of
        Inl e \<Rightarrow> Inl e
      | Inr twitter_content \<Rightarrow>
          build_topic_blocks news_data reddit_data twitter_data topics
            (if topic_context news_content reddit_content twitter_content \<noteq> []
             then topic_blocks @
                    [topic_block topic
                       (topic_context news_content reddit_content twitter_content)]
             else topic_blocks))))"

definition user_prompt :: "string list \<Rightarrow> string" where
  "user_prompt topic_blocks =
     ''Create broadcast segments for these topics using available sources:'' @
     [CHR 0x0A, CHR 0x0A] @
     join ([CHR 0x0A, CHR 0x0A] @ ''--- NEW TOPIC ---'' @ [CHR 0x0A, CHR 0x0A]) topic_blocks"

text \<open>
  \<open>generate_broadcast_news\<close>: \<open>generate_content\<close> is the Gemini call with the read of
  \<open>response.text\<close>. The handler raises the exception it caught. The second component
  lists the prompts sent to the model, one for each call.
\<close>

definition generate_broadcast_news ::
  "(string \<Rightarrow> exn + string) \<Rightarrow> analysis option \<Rightarrow> analysis option \<Rightarrow> analysis option
     \<Rightarrow> string list \<Rightarrow> (exn + string) \<times> string list" where
  "generate_broadcast_news generate_content news_data reddit_data twitter_data topics =
     (case build_topic_blocks news_data reddit_data twitter_data topics [] of
        Inl e \<Rightarrow> (Inl e, [])
      | Inr topic_blocks \<Rightarrow>
          (generate_content (system_prompt @ [CHR 0x0A, CHR 0x0A] @ user_prompt topic_blocks),
           [system_prompt @ [CHR 0x0A, CHR 0x0A] @ user_prompt topic_blocks]))"

text \<open>
  The words of the specification about a bundle. A source is keyed when it is absent, or
  an empty dictionary, or a dictionary with the key of its topic mapping: the handler
  passes nothing else. A summary is present when the source is there, has its key, and
  maps the topic to a non-empty text. A topic has material when one of its three
  summaries is present.
\<close>

definition keyed :: "analysis option \<Rightarrow> string \<Rightarrow> bool" where
  "keyed data key =
     (case data of
        None \<Rightarrow> True
      | Some d \<Rightarrow> d = [] \<or> map_of d key \<noteq> None)"

definition present :: "analysis option \<Rightarrow> string \<Rightarrow> string \<Rightarrow> bool" where
  "present data key topic =
     (case data of
        None \<Rightarrow> False
      | Some d \<Rightarrow>
          (case map_of d key of
             None \<Rightarrow> False
           | Some topic_result \<Rightarrow>
               (case map_of topic_result topic of
                  None \<Rightarrow> False
                | Some content \<Rightarrow> content \<noteq> [])))"

definition has_material ::
  "analysis option \<Rightarrow> analysis option \<Rightarrow> analysis option \<Rightarrow> string \<Rightarrow> bool" where
  "has_material news_data reddit_data twitter_data topic =
     (present news_data ''news_analysis'' topic \<or>
      present reddit_data ''reddit_analysis'' topic \<or>
      present twitter_data ''twitter_analysis'' topic)"

text \<open>The content the composer reads for a topic from a keyed source.\<close>

definition content_of :: "analysis option \<Rightarrow> string \<Rightarrow> string \<Rightarrow> string option" where
  "content_of data key topic =
     (case source_content data key topic of
        Inr content \<Rightarrow> content
      | Inl e \<Rightarrow> None)"

text \<open>The block of a topic, from the three sources.\<close>

definition block_of ::
  "analysis option \<Rightarrow> analysis option \<Rightarrow> analysis option \<Rightarrow> string \<Rightarrow> string" where
  "block_of news_data reddit_data twitter_data topic =
     topic_block topic
       (topic_context (content_of news_data ''news_analysis'' topic)
          (content_of reddit_data ''reddit_analysis'' topic)
          (content_of twitter_data ''twitter_analysis'' topic))"

text \<open>
  What the specification asks to reach the model, written out without the functions of
  the composer: the labelled summaries of a topic that are present and non-empty, the
  block of a topic (its name and its labelled summaries), and the input of the one
  reduction call (the instructions, the request line, and the blocks of the topics that
  have material, in the order of the topics, with the separator between them).
\<close>

definition labelled :: "string \<Rightarrow> analysis option \<Rightarrow> string \<Rightarrow> string \<Rightarrow> string list" where
  "labelled label data key topic =
     (case data of
        None \<Rightarrow> []
      | Some d \<Rightarrow>
          (case map_of d key of
             None \<Rightarrow> []
           | Some topic_result \<Rightarrow>
               (case map_of topic_result topic of
                  None \<Rightarrow> []
                | Some content \<Rightarrow>
                    if content = [] then [] else [label @ [CHR 0x0A] @ content])))"

definition material ::
  "analysis option \<Rightarrow> analysis option \<Rightarrow> analysis option \<Rightarrow> string \<Rightarrow> string list" where
  "material news_data reddit_data twitter_data topic =
     labelled ''OFFICIAL NEWS CONTENT:'' news_data ''news_analysis'' topic @
     labelled ''REDDIT DISCUSSION CONTENT:'' reddit_data ''reddit_analysis'' topic @
     labelled ''TWITTER DISCUSSION CONTENT:'' twitter_data ''twitter_analysis'' topic"

definition expected_block ::
  "analysis option \<Rightarrow> analysis option \<Rightarrow> analysis option \<Rightarrow> string \<Rightarrow> string" where
  "expected_block news_data reddit_data twitter_data topic =
     ''TOPIC: '' @ topic @ [CHR 0x0A, CHR 0x0A] @
     join [CHR 0x0A, CHR 0x0A] (material news_data reddit_data twitter_data topic)"

definition reduction_input ::
  "analysis option \<Rightarrow> analysis option \<Rightarrow> analysis option \<Rightarrow> string list \<Rightarrow> string" where
  "reduction_input news_data reddit_data twitter_data topics =
     system_prompt @ [CHR 0x0A, CHR 0x0A] @
     ''Create broadcast segments for these topics using available sources:'' @
     [CHR 0x0A, CHR 0x0A] @
     join ([CHR 0x0A, CHR 0x0A] @ ''--- NEW TOPIC ---'' @ [CHR 0x0A, CHR 0x0A])
       (map (expected_block news_data reddit_data twitter_data)
          (filter (has_material news_data reddit_data twitter_data) topics))"

section \<open>Language helpers (\<open>utils.py\<close>)\<close>

definition VOICE_BY_LANG :: "(string \<times> string) list" where
  "VOICE_BY_LANG =
     [(''en'', ''wayne''), (''hi'', ''shweta''), (''es'', ''valeria''), (''fr'', ''victor''),
      (''de'', ''max''), (''it'', ''vera''), (''ja'', ''kei''), (''ko'', ''seo-yun''),
      (''pt'', ''pedro''), (''ru'', ''sofia''), (''zh'', ''xing'')]"

definition get_voice_for_language :: "string \<Rightarrow> string" where
  "get_voice_for_language lang_code =
     (case map_of VOICE_BY_LANG lang_code of
        None \<Rightarrow> ''en-US-natalie''
      | Some voice \<Rightarrow> voice)"

definition translation_prompt :: "string \<Rightarrow> string \<Rightarrow> string" where
  "translation_prompt text target_lang =
     ''Translate the following broadcast news script to '' @ target_lang @ ''. '' @
     ''Maintain paragraph structure, formal broadcast tone, no extra commentary.'' @
     [CHR 0x0A, CHR 0x0A] @ text"

text \<open>
  \<open>translate_for_language\<close>: nothing is caught. The second component lists the prompts
  sent to the model.
\<close>

definition translate_for_language ::
  "(string \<Rightarrow> exn + string) \<Rightarrow> string \<Rightarrow> string \<Rightarrow> (exn + string) \<times> string list" where
  "translate_for_language generate_content text target_lang =
     (if startswith target_lang ''en'' then (Inr text, [])
      else
        ((case generate_content (translation_prompt text target_lang) of
            Inl e \<Rightarrow> Inl e
          | Inr translated \<Rightarrow> Inr (strip translated)),
         [translation_prompt text target_lang]))"

section \<open>The front end's choices (\<open>frontend.py\<close>)\<close>

definition LANGS :: "string list" where
  "LANGS = [''en-US'', ''hi-IN'', ''en-IN'', ''ta-IN'', ''bn-IN'', ''es-MX'', ''zh-CN'', ''ja-JP'']"

definition SOURCE_TYPES :: "string list" where
  "SOURCE_TYPES = [''all'', ''news'', ''reddit'', ''twitter'', ''both'']"

section \<open>The request handler (\<open>backend.py\<close>)\<close>

text \<open>
  The world of one request: the parameters of the three collectors, the model calls of the
  composer and of the translator, \<open>murf text voice_id language\<close> for \<open>text_to_audio_murf\<close>
  (the path of the audio file, or its exception), whether a path exists, and the base64
  text of the file at a path.
\<close>

record world =
  news_world :: news_env
  cutoff_str :: string
  reddit_session :: "exn option"
  reddit_model :: "nat \<Rightarrow> nat \<Rightarrow> string \<Rightarrow> exn + string"
  twitter_session :: "exn option"
  twitter_model :: "nat \<Rightarrow> nat \<Rightarrow> string \<Rightarrow> exn + string"
  broadcast_model :: "string \<Rightarrow> exn + string"
  translate_model :: "string \<Rightarrow> exn + string"
  murf :: "string \<Rightarrow> string \<Rightarrow> string \<Rightarrow> exn + string"
  path_exists :: "string \<Rightarrow> bool"
  read_b64 :: "string \<Rightarrow> exn + string"

record NewsRequest =
  topics :: "string list"
  source_type :: string
  language :: string

text \<open>The JSON response; the processing time of the metadata is left out.\<close>

record response =
  summary_text :: string
  audio_content :: string
  metadata_topics :: "string list"
  metadata_sources :: string
  metadata_language :: string

text \<open>What a request does to the outside, in order.\<close>

datatype call =
    ScrapeNews "string list"
  | ScrapeReddit "string list"
  | ScrapeTwitter "string list"
  | BroadcastModel string
  | TranslateModel string
  | Murf string string string

text \<open>The three \<open>if\<close> blocks that fill \<open>results\<close>; only the first has no \<open>try\<close>.\<close>

definition news_step ::
  "world \<Rightarrow> NewsRequest \<Rightarrow> (string \<times> analysis) list
     \<Rightarrow> (exn + (string \<times> analysis) list) \<times> call list" where
  "news_step w req results =
     (if source_type req \<in> {''news'', ''both'', ''all''} then
        (case fst (scrape_news (news_world w) (topics req)) of
           Inl e \<Rightarrow> (Inl e, [ScrapeNews (topics req)])
         | Inr news \<Rightarrow> (Inr (AList.update ''news'' news results), [ScrapeNews (topics req)]))
      else (Inr results, []))"

definition reddit_step ::
  "world \<Rightarrow> NewsRequest \<Rightarrow> (string \<times> analysis) list \<Rightarrow> (string \<times> analysis) list \<times> call list" where
  "reddit_step w req results =
     (if source_type req \<in> {''reddit'', ''both'', ''all''} then
        (AList.update ''reddit''
           (case scrape_reddit_topics (cutoff_str w) (reddit_session w) (reddit_model w)
                   (topics req) of
              Inr reddit \<Rightarrow> reddit
            | Inl e \<Rightarrow>
                [(''reddit_analysis'',
                  fold (\<lambda>t d. AList.update t ''Reddit unavailable'' d) (topics req) [])])
           results,
         [ScrapeReddit (topics req)])
      else (results, []))"

definition twitter_step ::
  "world \<Rightarrow> NewsRequest \<Rightarrow> (string \<times> analysis) list \<Rightarrow> (string \<times> analysis) list \<times> call list" where
  "twitter_step w req results =
     (if source_type req \<in> {''twitter'', ''all''} then
        (AList.update ''twitter''
           (case scrape_twitter_topics (twitter_session w) (twitter_model w) (topics req) of
              Inr twitter \<Rightarrow> twitter
            | Inl e \<Rightarrow>
                [(''twitter_analysis'',
                  fold (\<lambda>t d. AList.update t ''Twitter unavailable'' d) (topics req) [])])
           results,
         [ScrapeTwitter (topics req)])
      else (results, []))"

text \<open>The collection part of the handler: \<open>results\<close> after the three blocks.\<close>

definition collect_results ::
  "world \<Rightarrow> NewsRequest \<Rightarrow> (exn + (string \<times> analysis) list) \<times> call list" where
  "collect_results w req =
     (case news_step w req [] of
        (Inl e, c1) \<Rightarrow> (Inl e, c1)
      | (Inr results1, c1) \<Rightarrow>
          (case reddit_step w req results1 of
             (results2, c2) \<Rightarrow>
               (case twitter_step w req results2 of
                  (results3, c3) \<Rightarrow> (Inr results3, c1 @ c2 @ c3))))"

text \<open>The translation block: the handler calls the translator unless the language is \<open>en-US\<close>.\<close>

definition translation_step :: "world \<Rightarrow> NewsRequest \<Rightarrow> string \<Rightarrow> (exn + string) \<times> string list" where
  "translation_step w req summary_en =
     (if language req \<noteq> ''en-US''
      then translate_for_language (translate_model w) summary_en (language req)
      else (Inr summary_en, []))"

text \<open>The audio block, from the voice to the encoded file.\<close>

definition audio_step :: "world \<Rightarrow> NewsRequest \<Rightarrow> string \<Rightarrow> (exn + response) \<times> call list" where
  "audio_step w req final_summary =
     (case murf w final_summary (get_voice_for_language (language req)) (language req) of
        Inl e \<Rightarrow> Inl e
      | Inr audio_path \<Rightarrow>
          if \<not> (audio_path \<noteq> [] \<and> path_exists w audio_path)
          then Inl (PyException ''RuntimeError'' ''Audio generation failed'')
          else (case read_b64 w audio_path of
                  Inl e \<Rightarrow> Inl e
                | Inr audio_b64 \<Rightarrow>
                    Inr \<lparr>summary_text = final_summary, audio_content = audio_b64,
                         metadata_topics = topics req, metadata_sources = source_type req,
                         metadata_language = language req\<rparr>),
      [Murf final_summary (get_voice_for_language (language req)) (language req)])"

text \<open>The body of the handler's \<open>try\<close>.\<close>

definition request_body :: "world \<Rightarrow> NewsRequest \<Rightarrow> (exn + response) \<times> call list" where
  "request_body w req =
     (case collect_results w req of
        (Inl e, c1) \<Rightarrow> (Inl e, c1)
      | (Inr results, c1) \<Rightarrow>
          (case generate_broadcast_news (broadcast_model w) (map_of results ''news'')
                  (map_of results ''reddit'') (map_of results ''twitter'') (topics req) of
             (Inl e, c2) \<Rightarrow> (Inl e, c1 @ map BroadcastModel c2)
           | (Inr summary_en, c2) \<Rightarrow>
               (case translation_step w req summary_en of
                  (Inl e, c3) \<Rightarrow> (Inl e, c1 @ map BroadcastModel c2 @ map TranslateModel c3)
                | (Inr final_summary, c3) \<Rightarrow>
                    (case audio_step w req final_summary of
                       (r, c4) \<Rightarrow>
                         (r, c1 @ map BroadcastModel c2 @ map TranslateModel c3 @ c4)))))"

text \<open>
  \<open>generate_news_audio\<close>: every exception of the body becomes an \<open>HTTPException\<close> with
  status 500 whose detail is the string of the exception.
\<close>

definition generate_news_audio :: "world \<Rightarrow> NewsRequest \<Rightarrow> (exn + response) \<times> call list" where
  "generate_news_audio w req =
     (case request_body w req of
        (Inr resp, calls) \<Rightarrow> (Inr resp, calls)
      | (Inl e, calls) \<Rightarrow> (Inl (HTTPException 500 (str_exn e)), calls))"

text \<open>
  The prompt the composer sends for a request: the blocks of the topics that have
  material in the collected results.
\<close>

definition composer_prompt :: "world \<Rightarrow> NewsRequest \<Rightarrow> string" where
  "composer_prompt w req =
     (case fst (collect_results w req) of
        Inl e \<Rightarrow> []
      | Inr results \<Rightarrow>
          system_prompt @ [CHR 0x0A, CHR 0x0A] @
          user_prompt
            (map (block_of (map_of results ''news'') (map_of results ''reddit'')
                    (map_of results ''twitter''))
               (filter (has_material (map_of results ''news'') (map_of results ''reddit'')
                          (map_of results ''twitter''))
                  (topics req))))"

section \<open>Example worlds\<close>

text \<open>
  Three agents for the examples: one that is overloaded twice and then answers, one that
  is always overloaded, and one that always fails otherwise.
\<close>

definition flaky_agent :: agent where
  "flaky_agent idx attempt messages =
     (if attempt < 3 then Inl (PyException ''RuntimeError'' ''503 Overloaded'') else Inr ''ok'')"

definition overloaded_agent :: agent where
  "overloaded_agent idx attempt messages = Inl (PyException ''RuntimeError'' ''Overloaded'')"

definition broken_agent :: agent where
  "broken_agent idx attempt messages = Inl (PyException ''RuntimeError'' ''boom'')"

text \<open>
  A model that fails for the second topic of a batch only and a model that always
  fails; a world for the news collector (BrightData answers for the first topic,
  answers with an empty page for the third and fails otherwise; the direct request fails
  for the second topic only; the summariser answers with \<open>Summary of:\<close> and the
  headlines it was given); and a model that answers for the first topic only.
\<close>

definition second_fails_model :: "nat \<Rightarrow> nat \<Rightarrow> string \<Rightarrow> exn + string" where
  "second_fails_model idx attempt prompt =
     (if idx = 2 then Inl (PyException ''RuntimeError'' ''boom'') else Inr ''summary'')"

definition failing_model :: "nat \<Rightarrow> nat \<Rightarrow> string \<Rightarrow> exn + string" where
  "failing_model idx attempt prompt = Inl (PyException ''RuntimeError'' ''boom'')"

definition example_news_env :: news_env where
  "example_news_env =
     \<lparr>quote_plus = (\<lambda>keyword. keyword),
      brightdata_post = (\<lambda>idx url.
         if idx = 1 then Inr (''AI wins'' @ [CHR 0x0A] @ ''More'' @ [CHR 0x0A] @ ''Robots'')
         else if idx = 3 then Inr []
         else Inl (RequestException ''timeout'')),
      requests_get = (\<lambda>idx url.
         if idx = 2 then Inl (RequestException ''refused'') else Inr ''Direct headline''),
      soup_get_text = (\<lambda>html_content. html_content),
      news_model = (\<lambda>idx prompt.
         Inr (''Summary of: '' @ drop (length news_system_prompt + 2) prompt)),
      future_repr = (\<lambda>e. ''<Future>'')\<rparr>"

definition example_model :: "nat \<Rightarrow> nat \<Rightarrow> string \<Rightarrow> exn + string" where
  "example_model idx attempt prompt =
     (if idx = 1 then Inr ''People like it'' else Inl (PyException ''ValueError'' ''blocked''))"

text \<open>The same news world, but BrightData answers every request with an empty page.\<close>

definition empty_page_env :: news_env where
  "empty_page_env = example_news_env\<lparr>brightdata_post := (\<lambda>idx url. Inr [])\<rparr>"

text \<open>
  A world for a whole request: the MCP session of Reddit opens, that of Twitter does not,
  the composer's model answers \<open>script\<close>, the translator's model answers with a
  padded \<open>anuvaad\<close>, and the audio is written and read back.
\<close>

definition example_world :: world where
  "example_world =
     \<lparr>news_world = example_news_env,
      cutoff_str = ''2025-01-01'',
      reddit_session = None,
      reddit_model = example_model,
      twitter_session = Some (PyException ''OSError'' ''npx not found''),
      twitter_model = example_model,
      broadcast_model = (\<lambda>prompt. Inr ''script''),
      translate_model = (\<lambda>prompt. Inr '' anuvaad ''),
      murf = (\<lambda>text voice_id language. Inr ''audio/tts.mp3''),
      path_exists = (\<lambda>path. True),
      read_b64 = (\<lambda>path. Inr ''QUJD'')\<rparr>"

text \<open>The worlds in which the composer's model, or the translator's, is out of quota.\<close>

definition quota_error :: exn where
  "quota_error = PyException ''ResourceExhausted'' ''429 quota exceeded''"

definition composer_down_world :: world where
  "composer_down_world = example_world\<lparr>broadcast_model := (\<lambda>prompt. Inl quota_error)\<rparr>"

definition translator_down_world :: world where
  "translator_down_world = example_world\<lparr>translate_model := (\<lambda>prompt. Inl quota_error)\<rparr>"

definition example_request :: NewsRequest where
  "example_request = \<lparr>topics = [''ai''], source_type = ''both'', language = ''hi-IN''\<rparr>"

section \<open>The retry policy\<close>

lemma attempts_policy:
  "1 \<le> a \<Longrightarrow> a \<le> n \<Longrightarrow>
   \<exists>k \<in> {a..n}.
     snd (tenacity_attempts n r fn a) = k \<and>
     (\<forall>j \<in> {a..<k}. case fn j of Inl e \<Rightarrow> r e | Inr v \<Rightarrow> False) \<and>
     (case fn k of
        Inr v \<Rightarrow> fst (tenacity_attempts n r fn a) = Returned v
      | Inl e \<Rightarrow> (if \<not> r e then fst (tenacity_attempts n r fn a) = Propagated e
                   else k = n \<and> fst (tenacity_attempts n r fn a) = GaveUp e))"
proof (induction n r fn a rule: tenacity_attempts.induct)
  case (1 n r fn a)
  show ?case
  proof (cases "fn a")
    case (Inr v)
    with 1 show ?thesis
      by (intro bexI [of _ a]) (simp_all add: tenacity_attempts.simps [of n r fn a])
  next
    case (Inl e)
    show ?thesis
    proof (cases "r e \<and> a < n")
      case False
      have "tenacity_attempts n r fn a = (if \<not> r e then (Propagated e, a) else (GaveUp e, a))"
        using False Inl by (auto simp add: tenacity_attempts.simps [of n r fn a])
      with 1 Inl False show ?thesis
        by (intro bexI [of _ a]) auto
    next
      case True
      then have step: "tenacity_attempts n r fn a = tenacity_attempts n r fn (Suc a)"
        using Inl by (simp add: tenacity_attempts.simps [of n r fn a])
      have "\<exists>k \<in> {Suc a..n}.
              snd (tenacity_attempts n r fn (Suc a)) = k \<and>
              (\<forall>j \<in> {Suc a..<k}. case fn j of Inl e \<Rightarrow> r e | Inr v \<Rightarrow> False) \<and>
              (case fn k of
                 Inr v \<Rightarrow> fst (tenacity_attempts n r fn (Suc a)) = Returned v
               | Inl e \<Rightarrow> (if \<not> r e then fst (tenacity_attempts n r fn (Suc a)) = Propagated e
                   else k = n \<and> fst (tenacity_attempts n r fn (Suc a)) = GaveUp e))"
        using True Inl by (intro "1.IH" [of e]) auto
      then obtain k where k: "k \<in> {Suc a..n}"
        "snd (tenacity_attempts n r fn (Suc a)) = k"
        "\<forall>j \<in> {Suc a..<k}. case fn j of Inl e \<Rightarrow> r e | Inr v \<Rightarrow> False"
        "case fn k of
           Inr v \<Rightarrow> fst (tenacity_attempts n r fn (Suc a)) = Returned v
         | Inl e \<Rightarrow> (if \<not> r e then fst (tenacity_attempts n r fn (Suc a)) = Propagated e
                   else k = n \<and> fst (tenacity_attempts n r fn (Suc a)) = GaveUp e)"
        by blast
      have "\<forall>j \<in> {a..<k}. case fn j of Inl e \<Rightarrow> r e | Inr v \<Rightarrow> False"
      proof
        fix j assume "j \<in> {a..<k}"
        then have "j = a \<or> j \<in> {Suc a..<k}" by auto
        with k(3) True Inl show "case fn j of Inl e \<Rightarrow> r e | Inr v \<Rightarrow> False" by auto
      qed
      with k show ?thesis
        unfolding step by (intro bexI [of _ k]) auto
    qed
  qed
qed

lemma retry_reraise_policy: "1 \<le> n \<Longrightarrow> retry_policy n r fn (retry_reraise n r fn)"
proof -
  assume n: "1 \<le> n"
  from attempts_policy [of 1 n r fn] n obtain k where k: "k \<in> {1..n}"
    "snd (tenacity_attempts n r fn 1) = k"
    "\<forall>j \<in> {1..<k}. case fn j of Inl e \<Rightarrow> r e | Inr v \<Rightarrow> False"
    "case fn k of
        Inr v \<Rightarrow> fst (tenacity_attempts n r fn 1) = Returned v
      | Inl e \<Rightarrow> (if \<not> r e then fst (tenacity_attempts n r fn 1) = Propagated e
                   else k = n \<and> fst (tenacity_attempts n r fn 1) = GaveUp e)"
    by auto
  obtain out m where om: "tenacity_attempts n r fn 1 = (out, m)" by (cases "tenacity_attempts n r fn 1")
  show ?thesis
    unfolding retry_policy_def
  proof (intro bexI [of _ k] conjI)
    show "k \<in> {1..n}" by fact
    show "snd (retry_reraise n r fn) = k"
      using k(2) om by (simp add: retry_reraise_def split: outcome.splits)
    show "fst (retry_reraise n r fn) = fn k"
      using k(4) om by (cases "fn k") (auto simp add: retry_reraise_def split: outcome.splits if_splits)
    show "\<forall>j \<in> {1..<k}. case fn j of Inl e \<Rightarrow> r e | Inr v \<Rightarrow> False" by fact
    show "case fn k of Inl e \<Rightarrow> r e \<longrightarrow> k = n | Inr v \<Rightarrow> True"
      using k(4) by (cases "fn k") (auto split: if_splits)
  qed
qed

lemma retry_policy_decides:
  assumes "retry_policy K r a res" and "k \<in> {1..K}"
    and "\<forall>j \<in> {1..<k}. case a j of Inl e \<Rightarrow> r e | Inr v \<Rightarrow> False"
    and "case a k of Inl e \<Rightarrow> r e \<longrightarrow> k = K | Inr v \<Rightarrow> True"
  shows "res = (a k, k)"
proof -
  from assms(1) obtain k' where k': "k' \<in> {1..K}" "snd res = k'" "fst res = a k'"
    "\<forall>j \<in> {1..<k'}. case a j of Inl e \<Rightarrow> r e | Inr v \<Rightarrow> False"
    "case a k' of Inl e \<Rightarrow> r e \<longrightarrow> k' = K | Inr v \<Rightarrow> True"
    unfolding retry_policy_def by blast
  have "\<not> k' < k"
  proof
    assume lt: "k' < k"
    with k'(1) assms(3) have "case a k' of Inl e \<Rightarrow> r e | Inr v \<Rightarrow> False" by simp
    with k'(5) have "k' = K" by (cases "a k'") auto
    with lt assms(2) show False by simp
  qed
  moreover have "\<not> k < k'"
  proof
    assume lt: "k < k'"
    with assms(2) k'(4) have "case a k of Inl e \<Rightarrow> r e | Inr v \<Rightarrow> False" by simp
    with assms(4) have "k = K" by (cases "a k") auto
    with lt k'(1) show False by simp
  qed
  ultimately have "k' = k" by simp
  with k'(2,3) show ?thesis by (cases res) simp
qed

text \<open>
  C3. The retry around the per-topic operation of the Reddit and of the Twitter collector
  follows the policy with \<open>K = 3\<close>: at most three attempts; only a failure of the
  module's overloaded kind is retried; any other failure is raised at its first
  occurrence; after the third attempt the last failure is raised; and the value of the
  first successful attempt is returned with the number of attempts made. The decorator
  of \<open>scrape_news\<close> wraps a body that never raises, and makes one attempt.
\<close>

theorem retry_policy_of_process_topic:
  "retry_policy 3 reddit_retryable
     (process_topic_attempt c agent idx t) (process_topic c agent idx t) \<and>
   retry_policy 3 twitter_retryable
     (process_twitter_topic_attempt agent idx t) (process_twitter_topic agent idx t) \<and>
   snd (scrape_news env ts) = 1"
  by (simp add: process_topic_def process_twitter_topic_def retry_reraise_policy
      scrape_news_def retry_wrap_def scrape_news_body_def tenacity_attempts.simps)

theorem retry_policy_of_process_topic_witness:
  "process_topic ''2025-01-01'' flaky_agent 1 ''ai'' = (Inr ''ok'', 3) \<and>
   process_topic ''2025-01-01'' overloaded_agent 1 ''ai'' =
     (Inl (MCPOverloadedError RedditScraper ''Service overloaded''), 3) \<and>
   process_topic ''2025-01-01'' broken_agent 1 ''ai'' =
     (Inl (PyException ''RuntimeError'' ''boom''), 1) \<and>
   process_twitter_topic flaky_agent 1 ''ai'' = (Inr ''ok'', 3)"
proof (intro conjI)
  note p = retry_policy_of_process_topic
  show "process_topic ''2025-01-01'' flaky_agent 1 ''ai'' = (Inr ''ok'', 3)"
    using retry_policy_decides [OF p [of "''2025-01-01''" flaky_agent 1 "''ai''", THEN conjunct1], of 3]
    by (simp add: process_topic_attempt_def flaky_agent_def sublist_code(3))
  show "process_topic ''2025-01-01'' overloaded_agent 1 ''ai'' =
     (Inl (MCPOverloadedError RedditScraper ''Service overloaded''), 3)"
    using retry_policy_decides [OF p [of "''2025-01-01''" overloaded_agent 1 "''ai''", THEN conjunct1], of 3]
    by (simp add: process_topic_attempt_def overloaded_agent_def sublist_code(3))
  show "process_topic ''2025-01-01'' broken_agent 1 ''ai'' =
     (Inl (PyException ''RuntimeError'' ''boom''), 1)"
    using retry_policy_decides [OF p [of "''2025-01-01''" broken_agent 1 "''ai''", THEN conjunct1], of 1]
    by (simp add: process_topic_attempt_def broken_agent_def sublist_code(3))
  show "process_twitter_topic flaky_agent 1 ''ai'' = (Inr ''ok'', 3)"
    using retry_policy_decides
      [OF p [of _ flaky_agent 1 "''ai''", THEN conjunct2, THEN conjunct1], of 3]
    by (simp add: process_twitter_topic_attempt_def flaky_agent_def sublist_code(3))
qed

section \<open>The collectors\<close>

subsection \<open>Dictionaries built by a loop\<close>

lemma fold_update_map_of:
  "map_of (fold (\<lambda>t d. AList.update t (f t) d) ts acc) t =
     (if t \<in> set ts then Some (f t) else map_of acc t)"
  by (induction ts arbitrary: acc) (auto simp add: update_conv')

lemma fold_update_keys:
  "distinct ts \<Longrightarrow> set ts \<inter> fst ` set acc = {} \<Longrightarrow>
   map fst (fold (\<lambda>t d. AList.update t (f t) d) ts acc) = map fst acc @ ts"
proof (induction ts arbitrary: acc)
  case Nil
  then show ?case by simp
next
  case (Cons t ts)
  from Cons.prems have "set ts \<inter> fst ` set (AList.update t (f t) acc) = {}"
    by (auto simp add: dom_update)
  with Cons show ?case by (simp add: update_keys image_iff)
qed

section \<open>The news collector\<close>

lemma news_loop_other:
  "t \<notin> set ts \<Longrightarrow> map_of (scrape_news_loop env k ts acc) t = map_of acc t"
  by (induction ts arbitrary: k acc) (auto simp add: update_conv')

lemma news_loop_map_of:
  "distinct ts \<Longrightarrow> i < length ts \<Longrightarrow>
   map_of (scrape_news_loop env k ts acc) (ts ! i) = Some (scrape_news_entry env (k + i) (ts ! i))"
proof (induction ts arbitrary: k i acc)
  case Nil
  then show ?case by simp
next
  case (Cons t ts)
  show ?case
  proof (cases i)
    case 0
    with Cons.prems show ?thesis by (simp add: news_loop_other update_conv')
  next
    case (Suc j)
    with Cons.prems Cons.IH [of j "Suc k"] show ?thesis by simp
  qed
qed

lemma news_loop_keys:
  "distinct ts \<Longrightarrow> set ts \<inter> fst ` set acc = {} \<Longrightarrow>
   map fst (scrape_news_loop env k ts acc) = map fst acc @ ts"
proof (induction ts arbitrary: k acc)
  case Nil
  then show ?case by simp
next
  case (Cons t ts)
  from Cons.prems have "set ts \<inter> fst ` set (AList.update t (scrape_news_entry env k t) acc) = {}"
    by (auto simp add: dom_update)
  with Cons show ?case by (simp add: update_keys image_iff)
qed

lemma scrape_news_returns:
  "scrape_news env ts = (Inr [(''news_analysis'', scrape_news_loop env 1 ts [])], 1)"
  by (simp add: scrape_news_def retry_wrap_def scrape_news_body_def tenacity_attempts.simps)

section \<open>The Reddit collector\<close>

lemma reddit_loop_other:
  "reddit_loop c agent k ts acc = Inr res \<Longrightarrow> t \<notin> set ts \<Longrightarrow> map_of res t = map_of acc t"
  by (induction ts arbitrary: k acc) (auto simp add: update_conv' split: sum.splits)

lemma reddit_loop_map_of:
  "reddit_loop c agent k ts acc = Inr res \<Longrightarrow> distinct ts \<Longrightarrow> i < length ts \<Longrightarrow>
   \<exists>v. fst (process_topic c agent (k + i) (ts ! i)) = Inr v \<and> map_of res (ts ! i) = Some v"
proof (induction ts arbitrary: k i acc)
  case Nil
  then show ?case by simp
next
  case (Cons t ts)
  from Cons.prems(1) obtain v where v: "fst (process_topic c agent k t) = Inr v"
    and rest: "reddit_loop c agent (Suc k) ts (AList.update t v acc) = Inr res"
    by (auto split: sum.splits)
  show ?case
  proof (cases i)
    case 0
    with Cons.prems v reddit_loop_other [OF rest, of t] show ?thesis
      by (simp add: update_conv')
  next
    case (Suc j)
    with Cons.prems Cons.IH [OF rest, of j] show ?thesis by simp
  qed
qed

lemma reddit_loop_keys:
  "reddit_loop c agent k ts acc = Inr res \<Longrightarrow> distinct ts \<Longrightarrow>
   set ts \<inter> fst ` set acc = {} \<Longrightarrow> map fst res = map fst acc @ ts"
proof (induction ts arbitrary: k acc)
  case Nil
  then show ?case by simp
next
  case (Cons t ts)
  from Cons.prems(1) obtain v where v: "fst (process_topic c agent k t) = Inr v"
    and rest: "reddit_loop c agent (Suc k) ts (AList.update t v acc) = Inr res"
    by (auto split: sum.splits)
  from Cons.prems have "set ts \<inter> fst ` set (AList.update t v acc) = {}"
    by (auto simp add: dom_update)
  with Cons.IH [OF rest] Cons.prems show ?case by (simp add: update_keys image_iff)
qed

lemma reddit_loop_fails:
  "i < length ts \<Longrightarrow> fst (process_topic c agent (k + i) (ts ! i)) = Inl e \<Longrightarrow>
   \<exists>e'. reddit_loop c agent k ts acc = Inl e'"
proof (induction ts arbitrary: k i acc)
  case Nil
  then show ?case by simp
next
  case (Cons t ts)
  show ?case
  proof (cases i)
    case 0
    with Cons.prems show ?thesis by simp
  next
    case (Suc j)
    with Cons.prems Cons.IH [of j "Suc k"] show ?thesis by (auto split: sum.splits)
  qed
qed

lemma reddit_loop_succeeds:
  "(\<forall>i<length ts. \<exists>v. fst (process_topic c agent (k + i) (ts ! i)) = Inr v) \<Longrightarrow>
   \<exists>res. reddit_loop c agent k ts acc = Inr res"
proof (induction ts arbitrary: k acc)
  case Nil
  then show ?case by simp
next
  case (Cons t ts)
  from Cons.prems have "\<exists>v. fst (process_topic c agent (k + 0) ((t # ts) ! 0)) = Inr v" by blast
  then obtain v where v: "fst (process_topic c agent k t) = Inr v" by auto
  have "\<forall>i<length ts. \<exists>v. fst (process_topic c agent (Suc k + i) (ts ! i)) = Inr v"
  proof (intro allI impI)
    fix i assume "i < length ts"
    with Cons.prems have "\<exists>v. fst (process_topic c agent (k + Suc i) ((t # ts) ! Suc i)) = Inr v"
      by (metis Suc_less_eq length_Cons)
    then show "\<exists>v. fst (process_topic c agent (Suc k + i) (ts ! i)) = Inr v" by simp
  qed
  from Cons.IH [OF this] v show ?case by simp
qed

section \<open>The Twitter collector\<close>

lemma twitter_loop_other:
  "twitter_loop agent k ts acc = Inr res \<Longrightarrow> t \<notin> set ts \<Longrightarrow> map_of res t = map_of acc t"
  by (induction ts arbitrary: k acc) (auto simp add: update_conv' split: sum.splits)

lemma twitter_loop_map_of:
  "twitter_loop agent k ts acc = Inr res \<Longrightarrow> distinct ts \<Longrightarrow> i < length ts \<Longrightarrow>
   \<exists>v. fst (process_twitter_topic agent (k + i) (ts ! i)) = Inr v \<and> map_of res (ts ! i) = Some v"
proof (induction ts arbitrary: k i acc)
  case Nil
  then show ?case by simp
next
  case (Cons t ts)
  from Cons.prems(1) obtain v where v: "fst (process_twitter_topic agent k t) = Inr v"
    and rest: "twitter_loop agent (Suc k) ts (AList.update t v acc) = Inr res"
    by (auto split: sum.splits)
  show ?case
  proof (cases i)
    case 0
    with Cons.prems v twitter_loop_other [OF rest, of t] show ?thesis
      by (simp add: update_conv')
  next
    case (Suc j)
    with Cons.prems Cons.IH [OF rest, of j] show ?thesis by simp
  qed
qed

lemma twitter_loop_keys:
  "twitter_loop agent k ts acc = Inr res \<Longrightarrow> distinct ts \<Longrightarrow>
   set ts \<inter> fst ` set acc = {} \<Longrightarrow> map fst res = map fst acc @ ts"
proof (induction ts arbitrary: k acc)
  case Nil
  then show ?case by simp
next
  case (Cons t ts)
  from Cons.prems(1) obtain v where v: "fst (process_twitter_topic agent k t) = Inr v"
    and rest: "twitter_loop agent (Suc k) ts (AList.update t v acc) = Inr res"
    by (auto split: sum.splits)
  from Cons.prems have "set ts \<inter> fst ` set (AList.update t v acc) = {}"
    by (auto simp add: dom_update)
  with Cons.IH [OF rest] Cons.prems show ?case by (simp add: update_keys image_iff)
qed

lemma twitter_loop_fails:
  "i < length ts \<Longrightarrow> fst (process_twitter_topic agent (k + i) (ts ! i)) = Inl e \<Longrightarrow>
   \<exists>e'. twitter_loop agent k ts acc = Inl e'"
proof (induction ts arbitrary: k i acc)
  case Nil
  then show ?case by simp
next
  case (Cons t ts)
  show ?case
  proof (cases i)
    case 0
    with Cons.prems show ?thesis by simp
  next
    case (Suc j)
    with Cons.prems Cons.IH [of j "Suc k"] show ?thesis by (auto split: sum.splits)
  qed
qed

lemma twitter_loop_succeeds:
  "(\<forall>i<length ts. \<exists>v. fst (process_twitter_topic agent (k + i) (ts ! i)) = Inr v) \<Longrightarrow>
   \<exists>res. twitter_loop agent k ts acc = Inr res"
proof (induction ts arbitrary: k acc)
  case Nil
  then show ?case by simp
next
  case (Cons t ts)
  from Cons.prems have "\<exists>v. fst (process_twitter_topic agent (k + 0) ((t # ts) ! 0)) = Inr v" by blast
  then obtain v where v: "fst (process_twitter_topic agent k t) = Inr v" by auto
  have "\<forall>i<length ts. \<exists>v. fst (process_twitter_topic agent (Suc k + i) (ts ! i)) = Inr v"
  proof (intro allI impI)
    fix i assume "i < length ts"
    with Cons.prems have "\<exists>v. fst (process_twitter_topic agent (k + Suc i) ((t # ts) ! Suc i)) = Inr v"
      by (metis Suc_less_eq length_Cons)
    then show "\<exists>v. fst (process_twitter_topic agent (Suc k + i) (ts ! i)) = Inr v" by simp
  qed
  from Cons.IH [OF this] v show ?case by simp
qed

section \<open>The agents of the two modules never raise\<close>

lemma split_char_nonempty: "split_char c s \<noteq> []"
  by (induction s) (auto split: list.splits)

lemma split_char_two: "c \<in> set s \<Longrightarrow> \<exists>p q ps. split_char c s = p # q # ps"
proof (induction s)
  case Nil
  then show ?case by simp
next
  case (Cons x xs)
  show ?case
  proof (cases "x = c")
    case True
    then show ?thesis using split_char_nonempty [of c xs]
      by (cases "split_char c xs") auto
  next
    case False
    with Cons show ?thesis by (auto split: list.splits)
  qed
qed

lemma quoted_topic_returns: "\<exists>q. quoted_topic s = Inr q"
proof (cases "CHR 0x27 \<in> set s")
  case True
  from split_char_two [OF this] show ?thesis
    using True by (auto simp add: quoted_topic_def)
next
  case False
  then show ?thesis by (simp add: quoted_topic_def)
qed

lemma GeminiAgent_returns: "\<exists>text. GeminiAgent_ainvoke g idx attempt msgs = Inr text"
proof -
  obtain sm um where scan: "scan_messages msgs ([], []) = (sm, um)"
    by (cases "scan_messages msgs ([], [])")
  obtain q where q: "quoted_topic um = Inr q" using quoted_topic_returns by blast
  show ?thesis
    by (cases "g idx attempt (sm @ [CHR 0x0A, CHR 0x0A] @ um)")
       (simp_all add: GeminiAgent_ainvoke_def scan q)
qed

lemma TwitterAgent_returns: "\<exists>text. TwitterAgent_ainvoke g idx attempt msgs = Inr text"
proof -
  obtain sm um where scan: "scan_messages msgs ([], []) = (sm, um)"
    by (cases "scan_messages msgs ([], [])")
  obtain q where q: "quoted_topic um = Inr q" using quoted_topic_returns by blast
  show ?thesis
    by (cases "g idx attempt (sm @ [CHR 0x0A, CHR 0x0A] @ um)")
       (simp_all add: TwitterAgent_ainvoke_def scan q)
qed

lemma retry_reraise_first: "fn 1 = Inr v \<Longrightarrow> retry_reraise n r fn = (Inr v, 1)"
  by (simp add: retry_reraise_def tenacity_attempts.simps [of n r fn "Suc 0"])

lemma process_topic_GeminiAgent:
  "\<exists>v. process_topic c (GeminiAgent_ainvoke g) idx t = (Inr v, 1)"
proof -
  obtain out where "GeminiAgent_ainvoke g idx 1 (reddit_messages c t) = Inr out"
    using GeminiAgent_returns by blast
  then have "process_topic_attempt c (GeminiAgent_ainvoke g) idx t 1 = Inr out"
    by (simp add: process_topic_attempt_def)
  then show ?thesis
    using retry_reraise_first [of "process_topic_attempt c (GeminiAgent_ainvoke g) idx t" out]
    by (simp add: process_topic_def)
qed

lemma process_twitter_topic_TwitterAgent:
  "\<exists>v. process_twitter_topic (TwitterAgent_ainvoke g) idx t = (Inr v, 1)"
proof -
  obtain out where "TwitterAgent_ainvoke g idx 1 (twitter_messages t) = Inr out"
    using TwitterAgent_returns by blast
  then have "process_twitter_topic_attempt (TwitterAgent_ainvoke g) idx t 1 = Inr out"
    by (simp add: process_twitter_topic_attempt_def)
  then show ?thesis
    using retry_reraise_first [of "process_twitter_topic_attempt (TwitterAgent_ainvoke g) idx t" out]
    by (simp add: process_twitter_topic_def)
qed

section \<open>What the collectors return\<close>

lemma scrape_news_result:
  "distinct ts \<Longrightarrow>
   \<exists>res. fst (scrape_news env ts) = Inr [(''news_analysis'', res)] \<and> map fst res = ts \<and>
     (\<forall>i<length ts. map_of res (ts ! i) = Some (scrape_news_entry env (Suc i) (ts ! i)))"
  using news_loop_keys [of ts "[]" env 1] news_loop_map_of [of ts _ env 1 "[]"]
  by (simp add: scrape_news_returns)

lemma reddit_placeholders:
  "distinct ts \<Longrightarrow>
   map fst (fold (\<lambda>t d. AList.update t (reddit_unavailable t) d) ts []) = ts \<and>
   (\<forall>t\<in>set ts. map_of (fold (\<lambda>t d. AList.update t (reddit_unavailable t) d) ts []) t =
      Some (reddit_unavailable t))"
  using fold_update_keys [of ts "[]" reddit_unavailable]
  by (simp add: fold_update_map_of)

lemma twitter_placeholders:
  "distinct ts \<Longrightarrow>
   map fst (fold (\<lambda>t d. AList.update t (twitter_unavailable t) d) ts []) = ts \<and>
   (\<forall>t\<in>set ts. map_of (fold (\<lambda>t d. AList.update t (twitter_unavailable t) d) ts []) t =
      Some (twitter_unavailable t))"
  using fold_update_keys [of ts "[]" twitter_unavailable]
  by (simp add: fold_update_map_of)

lemma scrape_reddit_result:
  assumes "distinct ts"
  shows "\<exists>res. scrape_reddit_topics_with c s agent ts = Inr [(''reddit_analysis'', res)] \<and>
     map fst res = ts \<and>
     (if s = None \<and> (\<forall>i<length ts. \<exists>v. fst (process_topic c agent (Suc i) (ts ! i)) = Inr v)
      then \<forall>i<length ts. \<exists>v. fst (process_topic c agent (Suc i) (ts ! i)) = Inr v \<and>
                                map_of res (ts ! i) = Some v
      else \<forall>t\<in>set ts. map_of res t = Some (reddit_unavailable t))"
proof (cases "s = None \<and> (\<forall>i<length ts. \<exists>v. fst (process_topic c agent (Suc i) (ts ! i)) = Inr v)")
  case True
  then have "\<forall>i<length ts. \<exists>v. fst (process_topic c agent (1 + i) (ts ! i)) = Inr v" by simp
  from reddit_loop_succeeds [OF this] obtain res
    where res: "reddit_loop c agent 1 ts [] = Inr res" by blast
  have "map fst res = ts" using reddit_loop_keys [OF res assms] by simp
  moreover have "\<forall>i<length ts. \<exists>v. fst (process_topic c agent (Suc i) (ts ! i)) = Inr v \<and>
                                map_of res (ts ! i) = Some v"
    using reddit_loop_map_of [OF res assms] by simp
  ultimately show ?thesis using True res by (simp add: scrape_reddit_topics_with_def)
next
  case False
  have "\<exists>e. (case s of Some e \<Rightarrow> Inl e | None \<Rightarrow> reddit_loop c agent 1 ts []) = Inl e"
  proof (cases s)
    case (Some e)
    then show ?thesis by simp
  next
    case None
    with False obtain i where i: "i < length ts"
      "\<not> (\<exists>v. fst (process_topic c agent (Suc i) (ts ! i)) = Inr v)" by blast
    then obtain e where "fst (process_topic c agent (1 + i) (ts ! i)) = Inl e"
      by (cases "fst (process_topic c agent (Suc i) (ts ! i))") auto
    from reddit_loop_fails [OF i(1) this] None show ?thesis by simp
  qed
  then obtain e where "(case s of Some e \<Rightarrow> Inl e | None \<Rightarrow> reddit_loop c agent 1 ts []) = Inl e"
    by blast
  then have "scrape_reddit_topics_with c s agent ts =
      Inr [(''reddit_analysis'', fold (\<lambda>t d. AList.update t (reddit_unavailable t) d) ts [])]"
    by (simp add: scrape_reddit_topics_with_def)
  with False reddit_placeholders [OF assms] show ?thesis by auto
qed

lemma scrape_twitter_result:
  assumes "distinct ts"
  shows "\<exists>res. scrape_twitter_topics_with s agent ts = Inr [(''twitter_analysis'', res)] \<and>
     map fst res = ts \<and>
     (if s = None \<and> (\<forall>i<length ts. \<exists>v. fst (process_twitter_topic agent (Suc i) (ts ! i)) = Inr v)
      then \<forall>i<length ts. \<exists>v. fst (process_twitter_topic agent (Suc i) (ts ! i)) = Inr v \<and>
                                map_of res (ts ! i) = Some v
      else \<forall>t\<in>set ts. map_of res t = Some (twitter_unavailable t))"
proof (cases "s = None \<and> (\<forall>i<length ts. \<exists>v. fst (process_twitter_topic agent (Suc i) (ts ! i)) = Inr v)")
  case True
  then have "\<forall>i<length ts. \<exists>v. fst (process_twitter_topic agent (1 + i) (ts ! i)) = Inr v" by simp
  from twitter_loop_succeeds [OF this] obtain res
    where res: "twitter_loop agent 1 ts [] = Inr res" by blast
  have "map fst res = ts" using twitter_loop_keys [OF res assms] by simp
  moreover have "\<forall>i<length ts. \<exists>v. fst (process_twitter_topic agent (Suc i) (ts ! i)) = Inr v \<and>
                                map_of res (ts ! i) = Some v"
    using twitter_loop_map_of [OF res assms] by simp
  ultimately show ?thesis using True res by (simp add: scrape_twitter_topics_with_def)
next
  case False
  have "\<exists>e. (case s of Some e \<Rightarrow> Inl e | None \<Rightarrow> twitter_loop agent 1 ts []) = Inl e"
  proof (cases s)
    case (Some e)
    then show ?thesis by simp
  next
    case None
    with False obtain i where i: "i < length ts"
      "\<not> (\<exists>v. fst (process_twitter_topic agent (Suc i) (ts ! i)) = Inr v)" by blast
    then obtain e where "fst (process_twitter_topic agent (1 + i) (ts ! i)) = Inl e"
      by (cases "fst (process_twitter_topic agent (Suc i) (ts ! i))") auto
    from twitter_loop_fails [OF i(1) this] None show ?thesis by simp
  qed
  then obtain e where "(case s of Some e \<Rightarrow> Inl e | None \<Rightarrow> twitter_loop agent 1 ts []) = Inl e"
    by blast
  then have "scrape_twitter_topics_with s agent ts =
      Inr [(''twitter_analysis'', fold (\<lambda>t d. AList.update t (twitter_unavailable t) d) ts [])]"
    by (simp add: scrape_twitter_topics_with_def)
  with False twitter_placeholders [OF assms] show ?thesis by auto
qed

section \<open>The sentence of the agents\<close>

lemma split_char_before: "sep \<notin> set p \<Longrightarrow> split_char sep (p @ sep # rest) = p # split_char sep rest"
  by (induction p) (auto split: list.splits)

lemma split_char_head:
  "\<exists>ps. split_char sep (t @ sep # rest) = takeWhile (\<lambda>c. c \<noteq> sep) t # ps"
proof (induction t)
  case Nil
  then show ?case by simp
next
  case (Cons x xs)
  then show ?case by (auto split: list.splits)
qed

lemma quoted_topic_between:
  "CHR 0x27 \<notin> set p \<Longrightarrow>
   quoted_topic (p @ [CHR 0x27] @ t @ [CHR 0x27] @ rest) = Inr (takeWhile (\<lambda>c. c \<noteq> CHR 0x27) t)"
proof -
  assume p: "CHR 0x27 \<notin> set p"
  obtain ps where "split_char (CHR 0x27) (t @ CHR 0x27 # rest) = takeWhile (\<lambda>c. c \<noteq> CHR 0x27) t # ps"
    using split_char_head by blast
  with split_char_before [OF p, of "t @ CHR 0x27 # rest"] show ?thesis
    by (simp add: quoted_topic_def)
qed

lemma quoted_topic_reddit:
  "quoted_topic (reddit_user_content t) = Inr (takeWhile (\<lambda>c. c \<noteq> CHR 0x27) t)"
  unfolding reddit_user_content_def by (rule quoted_topic_between) simp

lemma quoted_topic_twitter:
  "quoted_topic (twitter_user_content t) = Inr (takeWhile (\<lambda>c. c \<noteq> CHR 0x27) t)"
  unfolding twitter_user_content_def by (rule quoted_topic_between) simp

lemma GeminiAgent_reddit:
  "GeminiAgent_ainvoke g idx attempt (reddit_messages c t) =
     Inr (case g idx attempt (reddit_system_content c @ [CHR 0x0A, CHR 0x0A] @ reddit_user_content t) of
            Inr v \<Rightarrow> v
          | Inl e \<Rightarrow> reddit_unavailable (takeWhile (\<lambda>c. c \<noteq> CHR 0x27) t))"
  by (simp add: GeminiAgent_ainvoke_def reddit_messages_def quoted_topic_reddit
      reddit_unavailable_def split: sum.splits)

lemma TwitterAgent_twitter:
  "TwitterAgent_ainvoke g idx attempt (twitter_messages t) =
     Inr (case g idx attempt (twitter_system_content @ [CHR 0x0A, CHR 0x0A] @ twitter_user_content t) of
            Inr v \<Rightarrow> v
          | Inl e \<Rightarrow> twitter_unavailable (takeWhile (\<lambda>c. c \<noteq> CHR 0x27) t))"
  by (simp add: TwitterAgent_ainvoke_def twitter_messages_def quoted_topic_twitter
      twitter_unavailable_def split: sum.splits)

lemma process_topic_with_GeminiAgent:
  "process_topic c (GeminiAgent_ainvoke g) idx t =
     (Inr (case g idx 1 (reddit_system_content c @ [CHR 0x0A, CHR 0x0A] @ reddit_user_content t) of
             Inr v \<Rightarrow> v
           | Inl e \<Rightarrow> reddit_unavailable (takeWhile (\<lambda>c. c \<noteq> CHR 0x27) t)), 1)"
  unfolding process_topic_def
  by (rule retry_reraise_first) (simp add: process_topic_attempt_def GeminiAgent_reddit)

lemma process_twitter_topic_with_TwitterAgent:
  "process_twitter_topic (TwitterAgent_ainvoke g) idx t =
     (Inr (case g idx 1 (twitter_system_content @ [CHR 0x0A, CHR 0x0A] @ twitter_user_content t) of
             Inr v \<Rightarrow> v
           | Inl e \<Rightarrow> twitter_unavailable (takeWhile (\<lambda>c. c \<noteq> CHR 0x27) t)), 1)"
  unfolding process_twitter_topic_def
  by (rule retry_reraise_first) (simp add: process_twitter_topic_attempt_def TwitterAgent_twitter)

lemma scrape_reddit_topics_result:
  assumes "distinct ts"
  shows "\<exists>res. scrape_reddit_topics c s g ts = Inr [(''reddit_analysis'', res)] \<and>
     map fst res = ts \<and>
     (\<forall>i<length ts.
        map_of res (ts ! i) =
          Some (if s = None
                then (case g (Suc i) 1 (reddit_system_content c @ [CHR 0x0A, CHR 0x0A] @
                                         reddit_user_content (ts ! i)) of
                        Inr v \<Rightarrow> v
                      | Inl e \<Rightarrow> reddit_unavailable (takeWhile (\<lambda>c. c \<noteq> CHR 0x27) (ts ! i)))
                else reddit_unavailable (ts ! i)))"
proof -
  from scrape_reddit_result [OF assms, of c s "GeminiAgent_ainvoke g"]
  obtain res where res:
    "scrape_reddit_topics_with c s (GeminiAgent_ainvoke g) ts = Inr [(''reddit_analysis'', res)]"
    "map fst res = ts"
    "if s = None
     then \<forall>i<length ts. \<exists>v. fst (process_topic c (GeminiAgent_ainvoke g) (Suc i) (ts ! i)) = Inr v \<and>
                                map_of res (ts ! i) = Some v
     else \<forall>t\<in>set ts. map_of res t = Some (reddit_unavailable t)"
    by (auto simp add: process_topic_with_GeminiAgent)
  show ?thesis
  proof (intro exI [of _ res] conjI allI impI)
    show "scrape_reddit_topics c s g ts = Inr [(''reddit_analysis'', res)]"
      using res(1) by (simp add: scrape_reddit_topics_def)
    show "map fst res = ts" by fact
    fix i assume "i < length ts"
    with res(3) show "map_of res (ts ! i) =
          Some (if s = None
                then (case g (Suc i) 1 (reddit_system_content c @ [CHR 0x0A, CHR 0x0A] @
                                         reddit_user_content (ts ! i)) of
                        Inr v \<Rightarrow> v
                      | Inl e \<Rightarrow> reddit_unavailable (takeWhile (\<lambda>c. c \<noteq> CHR 0x27) (ts ! i)))
                else reddit_unavailable (ts ! i))"
      by (cases "s = None") (auto simp add: process_topic_with_GeminiAgent)
  qed
qed

lemma scrape_twitter_topics_result:
  assumes "distinct ts"
  shows "\<exists>res. scrape_twitter_topics s g ts = Inr [(''twitter_analysis'', res)] \<and>
     map fst res = ts \<and>
     (\<forall>i<length ts.
        map_of res (ts ! i) =
          Some (if s = None
                then (case g (Suc i) 1 (twitter_system_content @ [CHR 0x0A, CHR 0x0A] @
                                         twitter_user_content (ts ! i)) of
                        Inr v \<Rightarrow> v
                      | Inl e \<Rightarrow> twitter_unavailable (takeWhile (\<lambda>c. c \<noteq> CHR 0x27) (ts ! i)))
                else twitter_unavailable (ts ! i)))"
proof -
  from scrape_twitter_result [OF assms, of s "TwitterAgent_ainvoke g"]
  obtain res where res:
    "scrape_twitter_topics_with s (TwitterAgent_ainvoke g) ts = Inr [(''twitter_analysis'', res)]"
    "map fst res = ts"
    "if s = None
     then \<forall>i<length ts. \<exists>v. fst (process_twitter_topic (TwitterAgent_ainvoke g) (Suc i) (ts ! i)) = Inr v \<and>
                                map_of res (ts ! i) = Some v
     else \<forall>t\<in>set ts. map_of res t = Some (twitter_unavailable t)"
    by (auto simp add: process_twitter_topic_with_TwitterAgent)
  show ?thesis
  proof (intro exI [of _ res] conjI allI impI)
    show "scrape_twitter_topics s g ts = Inr [(''twitter_analysis'', res)]"
      using res(1) by (simp add: scrape_twitter_topics_def)
    show "map fst res = ts" by fact
    fix i assume "i < length ts"
    with res(3) show "map_of res (ts ! i) =
          Some (if s = None
                then (case g (Suc i) 1 (twitter_system_content @ [CHR 0x0A, CHR 0x0A] @
                                         twitter_user_content (ts ! i)) of
                        Inr v \<Rightarrow> v
                      | Inl e \<Rightarrow> twitter_unavailable (takeWhile (\<lambda>c. c \<noteq> CHR 0x27) (ts ! i)))
                else twitter_unavailable (ts ! i))"
      by (cases "s = None") (auto simp add: process_twitter_topic_with_TwitterAgent)
  qed
qed

lemma scrape_reddit_topics_returns:
  "\<exists>res. scrape_reddit_topics c s g ts = Inr [(''reddit_analysis'', res)]"
  by (simp add: scrape_reddit_topics_def scrape_reddit_topics_with_def split: sum.splits)

lemma scrape_twitter_topics_returns:
  "\<exists>res. scrape_twitter_topics s g ts = Inr [(''twitter_analysis'', res)]"
  by (simp add: scrape_twitter_topics_def scrape_twitter_topics_with_def split: sum.splits)

text \<open>
  C1. For a list of distinct topics, each of the three collectors returns normally, and
  the keys of the mapping it returns are the topics, in their order: none is missing and
  none is added. For the news collector every topic has the summary of its own
  processing or the news unavailability sentence. For the Reddit and the Twitter
  collector every topic has the text of a model call made for it, or the unavailability
  sentence of the module for the topic (the agent writes it for the topic as it reads it
  back from the prompt, up to the first apostrophe; the collector for the full topic).
  The list need not be non-empty.
\<close>

theorem collectors_cover_every_topic:
  "distinct ts \<Longrightarrow>
   (\<exists>res. fst (scrape_news env ts) = Inr [(''news_analysis'', res)] \<and> map fst res = ts \<and>
      (\<forall>i<length ts.
         (\<exists>v. scrape_news_topic env (Suc i) (ts ! i) = Inr v \<and> map_of res (ts ! i) = Some v) \<or>
         map_of res (ts ! i) = Some (news_unavailable (ts ! i)))) \<and>
   (\<exists>res. scrape_reddit_topics c s g ts = Inr [(''reddit_analysis'', res)] \<and> map fst res = ts \<and>
      (\<forall>i<length ts.
         (\<exists>p v. g (Suc i) 1 p = Inr v \<and> map_of res (ts ! i) = Some v) \<or>
         map_of res (ts ! i) = Some (reddit_unavailable (takeWhile (\<lambda>c. c \<noteq> CHR 0x27) (ts ! i))) \<or>
         map_of res (ts ! i) = Some (reddit_unavailable (ts ! i)))) \<and>
   (\<exists>res. scrape_twitter_topics s' g' ts = Inr [(''twitter_analysis'', res)] \<and> map fst res = ts \<and>
      (\<forall>i<length ts.
         (\<exists>p v. g' (Suc i) 1 p = Inr v \<and> map_of res (ts ! i) = Some v) \<or>
         map_of res (ts ! i) = Some (twitter_unavailable (takeWhile (\<lambda>c. c \<noteq> CHR 0x27) (ts ! i))) \<or>
         map_of res (ts ! i) = Some (twitter_unavailable (ts ! i))))"
proof (intro conjI)
  assume d: "distinct ts"
  from scrape_news_result [OF d, of env] obtain res where res:
    "fst (scrape_news env ts) = Inr [(''news_analysis'', res)]" "map fst res = ts"
    "\<forall>i<length ts. map_of res (ts ! i) = Some (scrape_news_entry env (Suc i) (ts ! i))"
    by blast
  have "\<forall>i<length ts.
         (\<exists>v. scrape_news_topic env (Suc i) (ts ! i) = Inr v \<and> map_of res (ts ! i) = Some v) \<or>
         map_of res (ts ! i) = Some (news_unavailable (ts ! i))"
    using res(3) by (auto simp add: scrape_news_entry_def split: sum.splits)
  with res(1,2) show "\<exists>res. fst (scrape_news env ts) = Inr [(''news_analysis'', res)] \<and> map fst res = ts \<and>
      (\<forall>i<length ts.
         (\<exists>v. scrape_news_topic env (Suc i) (ts ! i) = Inr v \<and> map_of res (ts ! i) = Some v) \<or>
         map_of res (ts ! i) = Some (news_unavailable (ts ! i)))" by blast
next
  assume d: "distinct ts"
  from scrape_reddit_topics_result [OF d, of c s g] obtain res where res:
    "scrape_reddit_topics c s g ts = Inr [(''reddit_analysis'', res)]" "map fst res = ts"
    "\<forall>i<length ts.
        map_of res (ts ! i) =
          Some (if s = None
                then (case g (Suc i) 1 (reddit_system_content c @ [CHR 0x0A, CHR 0x0A] @
                                         reddit_user_content (ts ! i)) of
                        Inr v \<Rightarrow> v
                      | Inl e \<Rightarrow> reddit_unavailable (takeWhile (\<lambda>c. c \<noteq> CHR 0x27) (ts ! i)))
                else reddit_unavailable (ts ! i))"
    by blast
  have "\<forall>i<length ts.
         (\<exists>p v. g (Suc i) 1 p = Inr v \<and> map_of res (ts ! i) = Some v) \<or>
         map_of res (ts ! i) = Some (reddit_unavailable (takeWhile (\<lambda>c. c \<noteq> CHR 0x27) (ts ! i))) \<or>
         map_of res (ts ! i) = Some (reddit_unavailable (ts ! i))"
  proof (intro allI impI)
    fix i assume "i < length ts"
    with res(3) show "(\<exists>p v. g (Suc i) 1 p = Inr v \<and> map_of res (ts ! i) = Some v) \<or>
         map_of res (ts ! i) = Some (reddit_unavailable (takeWhile (\<lambda>c. c \<noteq> CHR 0x27) (ts ! i))) \<or>
         map_of res (ts ! i) = Some (reddit_unavailable (ts ! i))"
      by (cases "g (Suc i) 1 (reddit_system_content c @ [CHR 0x0A, CHR 0x0A] @
                                         reddit_user_content (ts ! i))") (auto split: if_splits)
  qed
  with res(1,2) show "\<exists>res. scrape_reddit_topics c s g ts = Inr [(''reddit_analysis'', res)] \<and> map fst res = ts \<and>
      (\<forall>i<length ts.
         (\<exists>p v. g (Suc i) 1 p = Inr v \<and> map_of res (ts ! i) = Some v) \<or>
         map_of res (ts ! i) = Some (reddit_unavailable (takeWhile (\<lambda>c. c \<noteq> CHR 0x27) (ts ! i))) \<or>
         map_of res (ts ! i) = Some (reddit_unavailable (ts ! i)))" by blast
next
  assume d: "distinct ts"
  from scrape_twitter_topics_result [OF d, of s' g'] obtain res where res:
    "scrape_twitter_topics s' g' ts = Inr [(''twitter_analysis'', res)]" "map fst res = ts"
    "\<forall>i<length ts.
        map_of res (ts ! i) =
          Some (if s' = None
                then (case g' (Suc i) 1 (twitter_system_content @ [CHR 0x0A, CHR 0x0A] @
                                         twitter_user_content (ts ! i)) of
                        Inr v \<Rightarrow> v
                      | Inl e \<Rightarrow> twitter_unavailable (takeWhile (\<lambda>c. c \<noteq> CHR 0x27) (ts ! i)))
                else twitter_unavailable (ts ! i))"
    by blast
  have "\<forall>i<length ts.
         (\<exists>p v. g' (Suc i) 1 p = Inr v \<and> map_of res (ts ! i) = Some v) \<or>
         map_of res (ts ! i) = Some (twitter_unavailable (takeWhile (\<lambda>c. c \<noteq> CHR 0x27) (ts ! i))) \<or>
         map_of res (ts ! i) = Some (twitter_unavailable (ts ! i))"
  proof (intro allI impI)
    fix i assume "i < length ts"
    with res(3) show "(\<exists>p v. g' (Suc i) 1 p = Inr v \<and> map_of res (ts ! i) = Some v) \<or>
         map_of res (ts ! i) = Some (twitter_unavailable (takeWhile (\<lambda>c. c \<noteq> CHR 0x27) (ts ! i))) \<or>
         map_of res (ts ! i) = Some (twitter_unavailable (ts ! i))"
      by (cases "g' (Suc i) 1 (twitter_system_content @ [CHR 0x0A, CHR 0x0A] @
                                         twitter_user_content (ts ! i))") (auto split: if_splits)
  qed
  with res(1,2) show "\<exists>res. scrape_twitter_topics s' g' ts = Inr [(''twitter_analysis'', res)] \<and> map fst res = ts \<and>
      (\<forall>i<length ts.
         (\<exists>p v. g' (Suc i) 1 p = Inr v \<and> map_of res (ts ! i) = Some v) \<or>
         map_of res (ts ! i) = Some (twitter_unavailable (takeWhile (\<lambda>c. c \<noteq> CHR 0x27) (ts ! i))) \<or>
         map_of res (ts ! i) = Some (twitter_unavailable (ts ! i)))" by blast
qed

section \<open>The example worlds, evaluated\<close>

lemma example_fields:
  "quote_plus example_news_env keyword = keyword"
  "brightdata_post example_news_env idx url =
     (if idx = 1 then Inr (''AI wins'' @ [CHR 0x0A] @ ''More'' @ [CHR 0x0A] @ ''Robots'')
      else if idx = 3 then Inr []
      else Inl (RequestException ''timeout''))"
  "requests_get example_news_env idx url =
     (if idx = 2 then Inl (RequestException ''refused'') else Inr ''Direct headline'')"
  "soup_get_text example_news_env html_content = html_content"
  "news_model example_news_env idx prompt =
     Inr (''Summary of: '' @ drop (length news_system_prompt + 2) prompt)"
  by (simp_all add: example_news_env_def)

lemma example_summary:
  "summarize_with_gemini_news_script example_news_env idx headlines = Inr (''Summary of: '' @ headlines)"
  by (simp add: summarize_with_gemini_news_script_def example_fields)

lemmas news_topic_defs = scrape_news_topic_def example_summary generate_news_urls_to_scrape_def
  generate_valid_news_url_def getitem_def
  fetch_search_html_def scrape_with_brightdata_def clean_html_to_text_def headlines_or_fallback_def
  extract_headlines_def strip_def whitespace_def example_fields fallback_headline_def

lemma ex_topic1: "scrape_news_topic example_news_env (Suc 0) ''ai'' = Inr (''Summary of: AI wins'' @ [CHR 0x0A] @ ''Robots'')"
  by (simp add: news_topic_defs)

lemma ex_topic2: "scrape_news_topic example_news_env (Suc (Suc 0)) ''chess'' = Inl (RequestException ''refused'')"
  by (simp add: news_topic_defs)

lemma ex_topic3: "scrape_news_topic example_news_env (Suc (Suc (Suc 0))) ''go'' = Inr ''Summary of: Latest news about go''"
  by (simp add: news_topic_defs)

lemma ex_topic4: "scrape_news_topic example_news_env 4 ''tea'' = Inr ''Summary of: Direct headline''"
  by (simp add: news_topic_defs)

lemma ex_news: "fst (scrape_news example_news_env [''ai'', ''chess'', ''go'']) =
  Inr [(''news_analysis'', [(''ai'', ''Summary of: AI wins'' @ [CHR 0x0A] @ ''Robots''),
     (''chess'', news_unavailable ''chess''), (''go'', ''Summary of: Latest news about go'')])]"
  by (simp add: scrape_news_returns scrape_news_entry_def ex_topic1 ex_topic2 ex_topic3)

lemma ex_reddit: "scrape_reddit_topics ''2025-01-01'' None example_model [''ai'', ''O'' @ [CHR 0x27] @ ''Brien''] =
   Inr [(''reddit_analysis'', [(''ai'', ''People like it''), (''O'' @ [CHR 0x27] @ ''Brien'', reddit_unavailable ''O'')])]"
  by (simp add: scrape_reddit_topics_def scrape_reddit_topics_with_def process_topic_with_GeminiAgent example_model_def)

lemma ex_twitter: "scrape_twitter_topics (Some (PyException ''OSError'' ''npx not found'')) example_model [''ai'', ''chess''] =
   Inr [(''twitter_analysis'', [(''ai'', twitter_unavailable ''ai''), (''chess'', twitter_unavailable ''chess'')])]"
  by (simp add: scrape_twitter_topics_def scrape_twitter_topics_with_def)

theorem collectors_cover_every_topic_witness:
  "distinct [''ai'', ''chess'', ''go''] \<and>
   fst (scrape_news example_news_env [''ai'', ''chess'', ''go'']) =
     Inr [(''news_analysis'',
           [(''ai'', ''Summary of: AI wins'' @ [CHR 0x0A] @ ''Robots''),
            (''chess'', news_unavailable ''chess''),
            (''go'', ''Summary of: Latest news about go'')])] \<and>
   scrape_reddit_topics ''2025-01-01'' None example_model [''ai'', ''chess'', ''go''] =
     Inr [(''reddit_analysis'',
           [(''ai'', ''People like it''), (''chess'', reddit_unavailable ''chess''),
            (''go'', reddit_unavailable ''go'')])] \<and>
   scrape_twitter_topics (Some (PyException ''OSError'' ''npx not found'')) example_model
       [''ai'', ''chess'', ''go''] =
     Inr [(''twitter_analysis'',
           [(''ai'', twitter_unavailable ''ai''), (''chess'', twitter_unavailable ''chess''),
            (''go'', twitter_unavailable ''go'')])]"
proof -
  have d: "distinct [''ai'', ''chess'', ''go'']" by simp
  have n: "fst (scrape_news example_news_env [''ai'', ''chess'', ''go'']) =
     Inr [(''news_analysis'',
           [(''ai'', ''Summary of: AI wins'' @ [CHR 0x0A] @ ''Robots''),
            (''chess'', news_unavailable ''chess''),
            (''go'', ''Summary of: Latest news about go'')])]"
    by (simp add: scrape_news_returns scrape_news_entry_def ex_topic1 ex_topic2 ex_topic3)
  have r: "scrape_reddit_topics ''2025-01-01'' None example_model [''ai'', ''chess'', ''go''] =
     Inr [(''reddit_analysis'',
           [(''ai'', ''People like it''), (''chess'', reddit_unavailable ''chess''),
            (''go'', reddit_unavailable ''go'')])]"
    by (simp add: scrape_reddit_topics_def scrape_reddit_topics_with_def
        process_topic_with_GeminiAgent example_model_def)
  have t: "scrape_twitter_topics (Some (PyException ''OSError'' ''npx not found'')) example_model
       [''ai'', ''chess'', ''go''] =
     Inr [(''twitter_analysis'',
           [(''ai'', twitter_unavailable ''ai''), (''chess'', twitter_unavailable ''chess''),
            (''go'', twitter_unavailable ''go'')])]"
    by (simp add: scrape_twitter_topics_def scrape_twitter_topics_with_def)
  from collectors_cover_every_topic [OF d, of example_news_env "''2025-01-01''" None example_model
      "Some (PyException ''OSError'' ''npx not found'')" example_model] d n r t
  show ?thesis by blast
qed

section \<open>Containment of failures\<close>

lemma uncut_topic:
  "CHR 0x27 \<notin> set t \<Longrightarrow> takeWhile (\<lambda>x. x \<noteq> CHR 0x27) t = t"
  by (induction t) auto

text \<open>
  C2. No collector raises, whatever the session and the model do. For distinct topics
  and an open session, a topic whose processing fails gets the unavailability sentence
  of its source and the loop goes on: every other topic keeps the summary of its own
  processing. In the news collector the failure is an exception of the topic's
  \<open>try\<close> block; in the Reddit and the Twitter collector it is an exception of the
  model call, which the agent turns into the sentence for the topic as it reads it back
  from the prompt (the topic itself, unless it holds an apostrophe).
\<close>

theorem failure_containment:
  "distinct ts \<Longrightarrow>
   (\<exists>res. fst (scrape_news env ts) = Inr [(''news_analysis'', res)] \<and> map fst res = ts \<and>
      (\<forall>i<length ts.
         map_of res (ts ! i) =
           Some (case scrape_news_topic env (Suc i) (ts ! i) of
                   Inr summary \<Rightarrow> summary
                 | Inl e \<Rightarrow> news_unavailable (ts ! i)))) \<and>
   (\<exists>res. scrape_reddit_topics c None g ts = Inr [(''reddit_analysis'', res)] \<and>
      map fst res = ts \<and>
      (\<forall>i<length ts.
         map_of res (ts ! i) =
           Some (case g (Suc i) 1 (reddit_system_content c @ [CHR 0x0A, CHR 0x0A] @
                                    reddit_user_content (ts ! i)) of
                   Inr v \<Rightarrow> v
                 | Inl e \<Rightarrow> reddit_unavailable (takeWhile (\<lambda>x. x \<noteq> CHR 0x27) (ts ! i))))) \<and>
   (\<exists>res. scrape_twitter_topics None g' ts = Inr [(''twitter_analysis'', res)] \<and>
      map fst res = ts \<and>
      (\<forall>i<length ts.
         map_of res (ts ! i) =
           Some (case g' (Suc i) 1 (twitter_system_content @ [CHR 0x0A, CHR 0x0A] @
                                     twitter_user_content (ts ! i)) of
                   Inr v \<Rightarrow> v
                 | Inl e \<Rightarrow> twitter_unavailable (takeWhile (\<lambda>x. x \<noteq> CHR 0x27) (ts ! i))))) \<and>
   (\<forall>t. CHR 0x27 \<notin> set t \<longrightarrow>
      reddit_unavailable (takeWhile (\<lambda>x. x \<noteq> CHR 0x27) t) = reddit_unavailable t \<and>
      twitter_unavailable (takeWhile (\<lambda>x. x \<noteq> CHR 0x27) t) = twitter_unavailable t) \<and>
   (\<exists>res. scrape_reddit_topics c s g ts = Inr [(''reddit_analysis'', res)]) \<and>
   (\<exists>res. scrape_twitter_topics s' g' ts = Inr [(''twitter_analysis'', res)])"
  using scrape_news_result [of ts env] scrape_reddit_topics_result [of ts c None g]
    scrape_twitter_topics_result [of ts None g']
    scrape_reddit_topics_returns [of c s g ts] scrape_twitter_topics_returns [of s' g' ts]
  by (simp add: scrape_news_entry_def uncut_topic)

lemma second_fails_reddit:
  "scrape_reddit_topics c None second_fails_model [''ai'', ''chess'', ''go''] =
     Inr [(''reddit_analysis'',
           [(''ai'', ''summary''), (''chess'', reddit_unavailable ''chess''), (''go'', ''summary'')])]"
  by (simp add: scrape_reddit_topics_def scrape_reddit_topics_with_def
      process_topic_with_GeminiAgent second_fails_model_def)

lemma failing_twitter:
  "scrape_twitter_topics None failing_model [''ai'', ''chess'', ''go''] =
     Inr [(''twitter_analysis'',
           [(''ai'', twitter_unavailable ''ai''), (''chess'', twitter_unavailable ''chess''),
            (''go'', twitter_unavailable ''go'')])]"
  by (simp add: scrape_twitter_topics_def scrape_twitter_topics_with_def
      process_twitter_topic_with_TwitterAgent failing_model_def)


theorem failure_containment_witness:
  "distinct [''ai'', ''chess'', ''go''] \<and>
   fst (scrape_news example_news_env [''ai'', ''chess'', ''go'']) =
     Inr [(''news_analysis'',
           [(''ai'', ''Summary of: AI wins'' @ [CHR 0x0A] @ ''Robots''),
            (''chess'', news_unavailable ''chess''),
            (''go'', ''Summary of: Latest news about go'')])] \<and>
   scrape_reddit_topics ''2025-01-01'' None second_fails_model [''ai'', ''chess'', ''go''] =
     Inr [(''reddit_analysis'',
           [(''ai'', ''summary''), (''chess'', reddit_unavailable ''chess''), (''go'', ''summary'')])] \<and>
   scrape_twitter_topics None failing_model [''ai'', ''chess'', ''go''] =
     Inr [(''twitter_analysis'',
           [(''ai'', twitter_unavailable ''ai''), (''chess'', twitter_unavailable ''chess''),
            (''go'', twitter_unavailable ''go'')])]"
proof -
  have d: "distinct [''ai'', ''chess'', ''go'']" by simp
  have n: "fst (scrape_news example_news_env [''ai'', ''chess'', ''go'']) =
     Inr [(''news_analysis'',
           [(''ai'', ''Summary of: AI wins'' @ [CHR 0x0A] @ ''Robots''),
            (''chess'', news_unavailable ''chess''),
            (''go'', ''Summary of: Latest news about go'')])]"
    by (simp add: scrape_news_returns scrape_news_entry_def ex_topic1 ex_topic2 ex_topic3)
  from failure_containment [OF d, of example_news_env "''2025-01-01''" second_fails_model
      failing_model None None] d n second_fails_reddit [of "''2025-01-01''"] failing_twitter
  show ?thesis by blast
qed

section \<open>A failure in the middle of a Reddit or Twitter batch\<close>




section \<open>The fallbacks of the news collector\<close>

lemma news_url: "getitem (generate_news_urls_to_scrape env [t]) t = Inr (generate_valid_news_url env t)"
  by (simp add: generate_news_urls_to_scrape_def getitem_def)

lemma extract_headlines_empty: "extract_headlines [] = []"
  by (simp add: extract_headlines_def strip_def)

lemma brightdata_fails:
  "brightdata_post env idx url = Inl e \<Longrightarrow> \<exists>e'. scrape_with_brightdata env idx url = Inl e'"
  by (cases e) (simp_all add: scrape_with_brightdata_def)

lemma brightdata_returns:
  "brightdata_post env idx url = Inr html \<Longrightarrow> scrape_with_brightdata env idx url = Inr html"
  by (simp add: scrape_with_brightdata_def)

lemma scrape_news_single:
  "fst (scrape_news env [x]) = Inr [(''news_analysis'', [(x, scrape_news_entry env 1 x)])]"
  by (simp add: scrape_news_returns)

text \<open>
  C4. In the news collector, for every topic: when the BrightData request fails, the
  direct request for the same URL is made, and the topic fails only if that fails too;
  when no headline is extracted, the summariser is given the stand-in
  \<open>Latest news about\<close> followed by the topic; so a request for one topic whose
  page comes back empty stores the summary of the stand-in (or, if the summariser
  itself fails, the unavailability sentence) and does not raise.
\<close>

theorem news_fallbacks:
  "(brightdata_post env idx (generate_valid_news_url env t) = Inl e \<longrightarrow>
      scrape_news_topic env idx t =
        (case requests_get env idx (generate_valid_news_url env t) of
           Inl e' \<Rightarrow> Inl e'
         | Inr search_html \<Rightarrow>
             summarize_with_gemini_news_script env idx
               (headlines_or_fallback t (extract_headlines (clean_html_to_text env search_html))))) \<and>
   (fetch_search_html env idx (generate_valid_news_url env t) = Inr search_html \<and>
    extract_headlines (clean_html_to_text env search_html) = [] \<longrightarrow>
      scrape_news_topic env idx t =
        summarize_with_gemini_news_script env idx (''Latest news about '' @ t)) \<and>
   (brightdata_post env 1 (generate_valid_news_url env x) = Inr [] \<and> soup_get_text env [] = [] \<longrightarrow>
      fst (scrape_news env [x]) =
        Inr [(''news_analysis'',
              [(x, case summarize_with_gemini_news_script env 1 (''Latest news about '' @ x) of
                     Inr summary \<Rightarrow> summary
                   | Inl e \<Rightarrow> news_unavailable x)])])"
proof (intro conjI impI)
  assume "brightdata_post env idx (generate_valid_news_url env t) = Inl e"
  from brightdata_fails [OF this] obtain e'
    where "scrape_with_brightdata env idx (generate_valid_news_url env t) = Inl e'" by blast
  then show "scrape_news_topic env idx t =
        (case requests_get env idx (generate_valid_news_url env t) of
           Inl e' \<Rightarrow> Inl e'
         | Inr search_html \<Rightarrow>
             summarize_with_gemini_news_script env idx
               (headlines_or_fallback t (extract_headlines (clean_html_to_text env search_html))))"
    by (simp add: scrape_news_topic_def news_url fetch_search_html_def)
next
  assume "fetch_search_html env idx (generate_valid_news_url env t) = Inr search_html \<and>
    extract_headlines (clean_html_to_text env search_html) = []"
  then show "scrape_news_topic env idx t =
        summarize_with_gemini_news_script env idx (''Latest news about '' @ t)"
    by (simp add: scrape_news_topic_def news_url headlines_or_fallback_def fallback_headline_def)
next
  assume a: "brightdata_post env 1 (generate_valid_news_url env x) = Inr [] \<and> soup_get_text env [] = []"
  then have "fetch_search_html env 1 (generate_valid_news_url env x) = Inr []"
    by (simp add: fetch_search_html_def brightdata_returns)
  moreover have "extract_headlines (clean_html_to_text env []) = []"
    using a by (simp add: clean_html_to_text_def strip_def extract_headlines_empty)
  ultimately have "scrape_news_topic env 1 x =
        summarize_with_gemini_news_script env 1 (''Latest news about '' @ x)"
    by (simp add: scrape_news_topic_def news_url headlines_or_fallback_def fallback_headline_def)
  then show "fst (scrape_news env [x]) =
        Inr [(''news_analysis'',
              [(x, case summarize_with_gemini_news_script env 1 (''Latest news about '' @ x) of
                     Inr summary \<Rightarrow> summary
                   | Inl e \<Rightarrow> news_unavailable x)])]"
    by (simp add: scrape_news_single scrape_news_entry_def)
qed

lemma empty_page_fields:
  "quote_plus empty_page_env keyword = keyword"
  "brightdata_post empty_page_env idx url = Inr []"
  "soup_get_text empty_page_env html_content = html_content"
  "news_model empty_page_env idx prompt =
     Inr (''Summary of: '' @ drop (length news_system_prompt + 2) prompt)"
  by (simp_all add: empty_page_env_def example_news_env_def)

lemma empty_page_summary:
  "summarize_with_gemini_news_script empty_page_env idx headlines = Inr (''Summary of: '' @ headlines)"
  by (simp add: summarize_with_gemini_news_script_def empty_page_fields)

theorem news_fallbacks_witness:
  "brightdata_post example_news_env 4 (generate_valid_news_url example_news_env ''tea'') =
     Inl (RequestException ''timeout'') \<and>
   scrape_news_topic example_news_env 4 ''tea'' = Inr ''Summary of: Direct headline'' \<and>
   fetch_search_html example_news_env 3 (generate_valid_news_url example_news_env ''go'') = Inr [] \<and>
   extract_headlines (clean_html_to_text example_news_env []) = [] \<and>
   scrape_news_topic example_news_env 3 ''go'' = Inr ''Summary of: Latest news about go'' \<and>
   brightdata_post empty_page_env 1 (generate_valid_news_url empty_page_env ''x'') = Inr [] \<and>
   soup_get_text empty_page_env [] = [] \<and>
   fst (scrape_news empty_page_env [''x'']) =
     Inr [(''news_analysis'', [(''x'', ''Summary of: Latest news about x'')])]"
  using news_fallbacks [where env = example_news_env and idx = 4 and t = "''tea''"
        and e = "RequestException ''timeout''", THEN conjunct1]
    news_fallbacks [where env = example_news_env and idx = 3 and t = "''go''"
        and search_html = "[]", THEN conjunct2, THEN conjunct1]
    news_fallbacks [where env = empty_page_env and x = "''x''", THEN conjunct2, THEN conjunct2]
  by (simp add: example_fields empty_page_fields example_summary empty_page_summary
      fetch_search_html_def scrape_with_brightdata_def clean_html_to_text_def strip_def
      extract_headlines_empty headlines_or_fallback_def extract_headlines_def whitespace_def)

section \<open>The composer\<close>

lemma source_content_keyed:
  "keyed data key \<Longrightarrow> source_content data key t = Inr (content_of data key t)"
  by (auto simp add: keyed_def content_of_def source_content_def getitem_def
      split: option.splits)

lemma truthy_content_of:
  "keyed data key \<Longrightarrow> truthy (content_of data key t) = present data key t"
  by (auto simp add: keyed_def content_of_def source_content_def getitem_def present_def
      split: option.splits)

lemma context_entry_empty: "(context_entry label content = []) = (\<not> truthy content)"
  by (cases content) simp_all

lemma topic_context_empty:
  "(topic_context n r t = []) = (\<not> truthy n \<and> \<not> truthy r \<and> \<not> truthy t)"
  by (simp add: topic_context_def context_entry_empty)

lemma build_topic_blocks_keyed:
  assumes "keyed news_data ''news_analysis''" "keyed reddit_data ''reddit_analysis''"
    "keyed twitter_data ''twitter_analysis''"
  shows "build_topic_blocks news_data reddit_data twitter_data ts acc =
     Inr (acc @ map (block_of news_data reddit_data twitter_data)
                    (filter (has_material news_data reddit_data twitter_data) ts))"
proof (induction ts arbitrary: acc)
  case Nil
  then show ?case by simp
next
  case (Cons t ts)
  show ?case
    by (simp add: source_content_keyed assms Cons.IH topic_context_empty truthy_content_of
        has_material_def block_of_def)
qed

lemma context_entry_keyed:
  "keyed data key \<Longrightarrow> context_entry label (content_of data key topic) = labelled label data key topic"
  by (auto simp add: keyed_def content_of_def source_content_def getitem_def labelled_def
      split: option.splits)

lemma labelled_present: "(labelled label data key topic \<noteq> []) = present data key topic"
  by (simp add: labelled_def present_def split: option.splits)

lemma material_has: "(material n r t topic \<noteq> []) = has_material n r t topic"
  by (simp add: material_def has_material_def labelled_present)

lemma block_of_expected:
  "keyed n ''news_analysis'' \<Longrightarrow> keyed r ''reddit_analysis'' \<Longrightarrow> keyed t ''twitter_analysis'' \<Longrightarrow>
   block_of n r t topic = expected_block n r t topic"
  by (simp add: block_of_def expected_block_def topic_block_def topic_context_def material_def
      context_entry_keyed)

lemma sublist_in_middle: "sublist xs ys \<Longrightarrow> sublist xs (ps @ ys @ ss)"
proof -
  assume "sublist xs ys"
  then obtain p s where "ys = p @ xs @ s" by (auto simp add: sublist_def)
  then have "ps @ ys @ ss = (ps @ p) @ xs @ (s @ ss)" by simp
  then show ?thesis unfolding sublist_def by blast
qed

lemma sublist_after: "sublist xs ys \<Longrightarrow> sublist xs (ps @ ys)"
  using sublist_in_middle [of xs ys ps "[]"] by simp

lemma sublist_join: "x \<in> set xs \<Longrightarrow> sublist x (join sep xs)"
proof (induction sep xs rule: join.induct)
  case (1 sep)
  then show ?case by simp
next
  case (2 sep p)
  then show ?case by simp
next
  case (3 sep p q ps)
  show ?case
  proof (cases "x = p")
    case True
    then show ?thesis by simp
  next
    case False
    with 3 have "sublist x (join sep (q # ps))" by simp
    then show ?thesis using sublist_after [of x "join sep (q # ps)" "p @ sep"] by simp
  qed
qed

lemma block_in_input:
  "topic \<in> set ts \<Longrightarrow> has_material n r t topic \<Longrightarrow>
   sublist (expected_block n r t topic) (reduction_input n r t ts)"
proof -
  assume "topic \<in> set ts" "has_material n r t topic"
  then have "expected_block n r t topic \<in>
      set (map (expected_block n r t) (filter (has_material n r t) ts))" by simp
  from sublist_join [OF this] show ?thesis
    unfolding reduction_input_def
    by (intro sublist_after)
qed

lemma entry_in_block:
  "entry \<in> set (material n r t topic) \<Longrightarrow> sublist entry (expected_block n r t topic)"
  unfolding expected_block_def
  by (intro sublist_after sublist_join)

lemma topic_in_block: "sublist (''TOPIC: '' @ topic @ [CHR 0x0A, CHR 0x0A]) (expected_block n r t topic)"
proof -
  have "expected_block n r t topic =
      (''TOPIC: '' @ topic @ [CHR 0x0A, CHR 0x0A]) @ join [CHR 0x0A, CHR 0x0A] (material n r t topic)"
    by (simp add: expected_block_def)
  then show ?thesis by (simp only: sublist_append_rightI)
qed

lemma reduction_input_filter:
  "reduction_input n r t (filter (has_material n r t) ts) = reduction_input n r t ts"
  by (simp add: reduction_input_def)

lemma generate_broadcast_news_keyed:
  assumes "keyed n ''news_analysis''" "keyed r ''reddit_analysis''" "keyed t ''twitter_analysis''"
  shows "build_topic_blocks n r t ts [] =
           Inr (map (expected_block n r t) (filter (has_material n r t) ts))"
    and "generate_broadcast_news g n r t ts = (g (reduction_input n r t ts), [reduction_input n r t ts])"
proof -
  have eq: "map (block_of n r t) xs = map (expected_block n r t) xs" for xs
    by (simp add: block_of_expected assms)
  show b: "build_topic_blocks n r t ts [] =
           Inr (map (expected_block n r t) (filter (has_material n r t) ts))"
    using build_topic_blocks_keyed [OF assms, of ts "[]"] by (simp add: eq)
  show "generate_broadcast_news g n r t ts = (g (reduction_input n r t ts), [reduction_input n r t ts])"
    by (simp add: generate_broadcast_news_def b user_prompt_def reduction_input_def)
qed

text \<open>
  C6. For a bundle as the handler passes it, the composer builds one block for each
  topic that has material (a present, non-empty summary from news, Reddit or Twitter),
  in the order of the topics, and none for the others, and makes exactly one model call,
  whose input is the instructions, the request line and these blocks. The name of every
  topic that has material and each of its labelled summaries occur in that input; the
  topics without material change nothing in it. With the topics \<open>A\<close> and
  \<open>B\<close>, news for \<open>A\<close> only and Reddit for \<open>B\<close> only, the input holds
  the block of \<open>A\<close> and the block of \<open>B\<close>. Whatever the bundle, there is never
  more than one call.
\<close>

theorem composer_blocks_and_single_call:
  "(keyed news_data ''news_analysis'' \<and> keyed reddit_data ''reddit_analysis'' \<and>
    keyed twitter_data ''twitter_analysis'' \<longrightarrow>
      build_topic_blocks news_data reddit_data twitter_data ts [] =
        Inr (map (expected_block news_data reddit_data twitter_data)
                 (filter (has_material news_data reddit_data twitter_data) ts)) \<and>
      generate_broadcast_news generate_content news_data reddit_data twitter_data ts =
        (generate_content (reduction_input news_data reddit_data twitter_data ts),
         [reduction_input news_data reddit_data twitter_data ts])) \<and>
   (\<forall>topic \<in> set ts.
      has_material news_data reddit_data twitter_data topic \<longrightarrow>
        sublist (''TOPIC: '' @ topic @ [CHR 0x0A, CHR 0x0A])
          (reduction_input news_data reddit_data twitter_data ts) \<and>
        (\<forall>entry \<in> set (material news_data reddit_data twitter_data topic).
           sublist entry (reduction_input news_data reddit_data twitter_data ts))) \<and>
   reduction_input news_data reddit_data twitter_data
       (filter (has_material news_data reddit_data twitter_data) ts) =
     reduction_input news_data reddit_data twitter_data ts \<and>
   (n \<noteq> [] \<and> r \<noteq> [] \<longrightarrow>
      generate_broadcast_news generate_content (Some [(''news_analysis'', [(''A'', n)])])
          (Some [(''reddit_analysis'', [(''B'', r)])]) None [''A'', ''B''] =
        (generate_content
           (system_prompt @ [CHR 0x0A, CHR 0x0A] @
            ''Create broadcast segments for these topics using available sources:'' @
            [CHR 0x0A, CHR 0x0A] @
            ''TOPIC: A'' @ [CHR 0x0A, CHR 0x0A] @ ''OFFICIAL NEWS CONTENT:'' @ [CHR 0x0A] @ n @
            [CHR 0x0A, CHR 0x0A] @ ''--- NEW TOPIC ---'' @ [CHR 0x0A, CHR 0x0A] @
            ''TOPIC: B'' @ [CHR 0x0A, CHR 0x0A] @ ''REDDIT DISCUSSION CONTENT:'' @ [CHR 0x0A] @ r),
         [system_prompt @ [CHR 0x0A, CHR 0x0A] @
          ''Create broadcast segments for these topics using available sources:'' @
          [CHR 0x0A, CHR 0x0A] @
          ''TOPIC: A'' @ [CHR 0x0A, CHR 0x0A] @ ''OFFICIAL NEWS CONTENT:'' @ [CHR 0x0A] @ n @
          [CHR 0x0A, CHR 0x0A] @ ''--- NEW TOPIC ---'' @ [CHR 0x0A, CHR 0x0A] @
          ''TOPIC: B'' @ [CHR 0x0A, CHR 0x0A] @ ''REDDIT DISCUSSION CONTENT:'' @ [CHR 0x0A] @ r])) \<and>
   length (snd (generate_broadcast_news generate_content news_data reddit_data twitter_data ts)) \<le> 1"
proof (intro conjI impI ballI)
  assume k: "keyed news_data ''news_analysis'' \<and> keyed reddit_data ''reddit_analysis'' \<and>
    keyed twitter_data ''twitter_analysis''"
  then show "build_topic_blocks news_data reddit_data twitter_data ts [] =
        Inr (map (expected_block news_data reddit_data twitter_data)
                 (filter (has_material news_data reddit_data twitter_data) ts))"
    by (simp add: generate_broadcast_news_keyed(1))
  from k show "generate_broadcast_news generate_content news_data reddit_data twitter_data ts =
        (generate_content (reduction_input news_data reddit_data twitter_data ts),
         [reduction_input news_data reddit_data twitter_data ts])"
    by (simp add: generate_broadcast_news_keyed(2))
next
  fix topic
  assume t: "topic \<in> set ts" and h: "has_material news_data reddit_data twitter_data topic"
  have b: "sublist (expected_block news_data reddit_data twitter_data topic)
      (reduction_input news_data reddit_data twitter_data ts)"
    by (rule block_in_input [OF t h])
  show "sublist (''TOPIC: '' @ topic @ [CHR 0x0A, CHR 0x0A])
          (reduction_input news_data reddit_data twitter_data ts)"
    by (rule sublist_order.order_trans [OF topic_in_block b])
  fix entry
  assume "entry \<in> set (material news_data reddit_data twitter_data topic)"
  from sublist_order.order_trans [OF entry_in_block [OF this] b]
  show "sublist entry (reduction_input news_data reddit_data twitter_data ts)" .
next
  show "reduction_input news_data reddit_data twitter_data
       (filter (has_material news_data reddit_data twitter_data) ts) =
     reduction_input news_data reddit_data twitter_data ts"
    by (rule reduction_input_filter)
next
  assume "n \<noteq> [] \<and> r \<noteq> []"
  then show "generate_broadcast_news generate_content (Some [(''news_analysis'', [(''A'', n)])])
          (Some [(''reddit_analysis'', [(''B'', r)])]) None [''A'', ''B''] =
        (generate_content
           (system_prompt @ [CHR 0x0A, CHR 0x0A] @
            ''Create broadcast segments for these topics using available sources:'' @
            [CHR 0x0A, CHR 0x0A] @
            ''TOPIC: A'' @ [CHR 0x0A, CHR 0x0A] @ ''OFFICIAL NEWS CONTENT:'' @ [CHR 0x0A] @ n @
            [CHR 0x0A, CHR 0x0A] @ ''--- NEW TOPIC ---'' @ [CHR 0x0A, CHR 0x0A] @
            ''TOPIC: B'' @ [CHR 0x0A, CHR 0x0A] @ ''REDDIT DISCUSSION CONTENT:'' @ [CHR 0x0A] @ r),
         [system_prompt @ [CHR 0x0A, CHR 0x0A] @
          ''Create broadcast segments for these topics using available sources:'' @
          [CHR 0x0A, CHR 0x0A] @
          ''TOPIC: A'' @ [CHR 0x0A, CHR 0x0A] @ ''OFFICIAL NEWS CONTENT:'' @ [CHR 0x0A] @ n @
          [CHR 0x0A, CHR 0x0A] @ ''--- NEW TOPIC ---'' @ [CHR 0x0A, CHR 0x0A] @
          ''TOPIC: B'' @ [CHR 0x0A, CHR 0x0A] @ ''REDDIT DISCUSSION CONTENT:'' @ [CHR 0x0A] @ r])"
    by (simp add: generate_broadcast_news_def source_content_def getitem_def topic_context_def
        topic_block_def user_prompt_def)
next
  show "length (snd (generate_broadcast_news generate_content news_data reddit_data twitter_data ts)) \<le> 1"
    by (simp add: generate_broadcast_news_def split: sum.splits)
qed

theorem composer_blocks_and_single_call_witness:
  "keyed (Some [(''news_analysis'', [(''A'', ''news of A''), (''C'', [])])]) ''news_analysis'' \<and>
   keyed (Some [(''reddit_analysis'', [(''B'', ''talk of B'')])]) ''reddit_analysis'' \<and>
   keyed None ''twitter_analysis'' \<and>
   generate_broadcast_news (\<lambda>prompt. Inr ''script'')
       (Some [(''news_analysis'', [(''A'', ''news of A''), (''C'', [])])])
       (Some [(''reddit_analysis'', [(''B'', ''talk of B'')])]) None [''A'', ''B'', ''C'', ''D''] =
     (Inr ''script'',
      [system_prompt @ [CHR 0x0A, CHR 0x0A] @
       ''Create broadcast segments for these topics using available sources:'' @
       [CHR 0x0A, CHR 0x0A] @
       ''TOPIC: A'' @ [CHR 0x0A, CHR 0x0A] @ ''OFFICIAL NEWS CONTENT:'' @ [CHR 0x0A] @ ''news of A'' @
       [CHR 0x0A, CHR 0x0A] @ ''--- NEW TOPIC ---'' @ [CHR 0x0A, CHR 0x0A] @
       ''TOPIC: B'' @ [CHR 0x0A, CHR 0x0A] @ ''REDDIT DISCUSSION CONTENT:'' @ [CHR 0x0A] @ ''talk of B'']) \<and>
   ''A'' \<in> set [''A'', ''B'', ''C'', ''D''] \<and>
   has_material (Some [(''news_analysis'', [(''A'', ''news of A''), (''C'', [])])])
       (Some [(''reddit_analysis'', [(''B'', ''talk of B'')])]) None ''A'' \<and>
   \<not> has_material (Some [(''news_analysis'', [(''A'', ''news of A''), (''C'', [])])])
       (Some [(''reddit_analysis'', [(''B'', ''talk of B'')])]) None ''C'' \<and>
   material (Some [(''news_analysis'', [(''A'', ''news of A''), (''C'', [])])])
       (Some [(''reddit_analysis'', [(''B'', ''talk of B'')])]) None ''A'' =
     [''OFFICIAL NEWS CONTENT:'' @ [CHR 0x0A] @ ''news of A''] \<and>
   sublist (''OFFICIAL NEWS CONTENT:'' @ [CHR 0x0A] @ ''news of A'')
     (reduction_input (Some [(''news_analysis'', [(''A'', ''news of A''), (''C'', [])])])
        (Some [(''reddit_analysis'', [(''B'', ''talk of B'')])]) None [''A'', ''B'', ''C'', ''D'']) \<and>
   ''news of A'' \<noteq> [] \<and> ''talk of B'' \<noteq> [] \<and>
   snd (generate_broadcast_news (\<lambda>prompt. Inr ''script'')
       (Some [(''news_analysis'', [(''A'', ''news of A'')])])
       (Some [(''reddit_analysis'', [(''B'', ''talk of B'')])]) None [''A'', ''B'']) =
     [system_prompt @ [CHR 0x0A, CHR 0x0A] @
      ''Create broadcast segments for these topics using available sources:'' @
      [CHR 0x0A, CHR 0x0A] @
      ''TOPIC: A'' @ [CHR 0x0A, CHR 0x0A] @ ''OFFICIAL NEWS CONTENT:'' @ [CHR 0x0A] @ ''news of A'' @
      [CHR 0x0A, CHR 0x0A] @ ''--- NEW TOPIC ---'' @ [CHR 0x0A, CHR 0x0A] @
      ''TOPIC: B'' @ [CHR 0x0A, CHR 0x0A] @ ''REDDIT DISCUSSION CONTENT:'' @ [CHR 0x0A] @ ''talk of B'']"
proof -
  let ?N = "Some [(''news_analysis'', [(''A'', ''news of A''), (''C'', [])])]"
  let ?R = "Some [(''reddit_analysis'', [(''B'', ''talk of B'')])]"
  let ?ts = "[''A'', ''B'', ''C'', ''D'']"
  note T = composer_blocks_and_single_call [where news_data = ?N and reddit_data = ?R and twitter_data = None
      and ts = ?ts and generate_content = "\<lambda>prompt. Inr ''script''"
      and n = "''news of A''" and r = "''talk of B''"]
  have k: "keyed ?N ''news_analysis'' \<and> keyed ?R ''reddit_analysis'' \<and> keyed None ''twitter_analysis''"
    by (simp add: keyed_def)
  have inp: "reduction_input ?N ?R None ?ts =
      system_prompt @ [CHR 0x0A, CHR 0x0A] @
       ''Create broadcast segments for these topics using available sources:'' @
       [CHR 0x0A, CHR 0x0A] @
       ''TOPIC: A'' @ [CHR 0x0A, CHR 0x0A] @ ''OFFICIAL NEWS CONTENT:'' @ [CHR 0x0A] @ ''news of A'' @
       [CHR 0x0A, CHR 0x0A] @ ''--- NEW TOPIC ---'' @ [CHR 0x0A, CHR 0x0A] @
       ''TOPIC: B'' @ [CHR 0x0A, CHR 0x0A] @ ''REDDIT DISCUSSION CONTENT:'' @ [CHR 0x0A] @ ''talk of B''"
    by (simp add: reduction_input_def expected_block_def material_def labelled_def
        has_material_def present_def)
  have g: "generate_broadcast_news (\<lambda>prompt. Inr ''script'') ?N ?R None ?ts =
      (Inr ''script'', [reduction_input ?N ?R None ?ts])"
    using T k by blast
  have inA: "''A'' \<in> set ?ts" by simp
  have hA: "has_material ?N ?R None ''A''" by (simp add: has_material_def present_def)
  have hC: "\<not> has_material ?N ?R None ''C''" by (simp add: has_material_def present_def)
  have m: "material ?N ?R None ''A'' = [''OFFICIAL NEWS CONTENT:'' @ [CHR 0x0A] @ ''news of A'']"
    by (simp add: material_def labelled_def)
  have sub: "sublist (''OFFICIAL NEWS CONTENT:'' @ [CHR 0x0A] @ ''news of A'')
      (reduction_input ?N ?R None ?ts)"
  proof -
    have "''OFFICIAL NEWS CONTENT:'' @ [CHR 0x0A] @ ''news of A'' \<in> set (material ?N ?R None ''A'')"
      by (simp only: m list.set_intros)
    with T inA hA show ?thesis by blast
  qed
  have ne: "''news of A'' \<noteq> [] \<and> ''talk of B'' \<noteq> []" by simp
  have ab: "snd (generate_broadcast_news (\<lambda>prompt. Inr ''script'')
       (Some [(''news_analysis'', [(''A'', ''news of A'')])]) ?R None [''A'', ''B'']) =
     [system_prompt @ [CHR 0x0A, CHR 0x0A] @
      ''Create broadcast segments for these topics using available sources:'' @
      [CHR 0x0A, CHR 0x0A] @
      ''TOPIC: A'' @ [CHR 0x0A, CHR 0x0A] @ ''OFFICIAL NEWS CONTENT:'' @ [CHR 0x0A] @ ''news of A'' @
      [CHR 0x0A, CHR 0x0A] @ ''--- NEW TOPIC ---'' @ [CHR 0x0A, CHR 0x0A] @
      ''TOPIC: B'' @ [CHR 0x0A, CHR 0x0A] @ ''REDDIT DISCUSSION CONTENT:'' @ [CHR 0x0A] @ ''talk of B'']"
    using T ne by simp
  from k g inA hA hC m sub ne ab show ?thesis unfolding inp by blast
qed

section \<open>The request handler\<close>

lemma news_step_returns:
  "news_step w req [] =
     (if source_type req \<in> {''news'', ''both'', ''all''}
      then (Inr [(''news'', [(''news_analysis'', scrape_news_loop (news_world w) 1 (topics req) [])])],
            [ScrapeNews (topics req)])
      else (Inr [], []))"
  by (simp add: news_step_def scrape_news_returns)

lemma reddit_step_returns:
  "reddit_step w req results =
     (if source_type req \<in> {''reddit'', ''both'', ''all''}
      then (AList.update ''reddit''
              (case scrape_reddit_topics (cutoff_str w) (reddit_session w) (reddit_model w)
                      (topics req) of Inr a \<Rightarrow> a | Inl e \<Rightarrow> []) results,
            [ScrapeReddit (topics req)])
      else (results, []))"
  using scrape_reddit_topics_returns [of "cutoff_str w" "reddit_session w" "reddit_model w" "topics req"]
  by (auto simp add: reddit_step_def)

lemma twitter_step_returns:
  "twitter_step w req results =
     (if source_type req \<in> {''twitter'', ''all''}
      then (AList.update ''twitter''
              (case scrape_twitter_topics (twitter_session w) (twitter_model w) (topics req) of
                 Inr a \<Rightarrow> a | Inl e \<Rightarrow> []) results,
            [ScrapeTwitter (topics req)])
      else (results, []))"
  using scrape_twitter_topics_returns [of "twitter_session w" "twitter_model w" "topics req"]
  by (auto simp add: twitter_step_def)

text \<open>
  C5. The handler calls the news collector exactly when the source type is \<open>news\<close>,
  \<open>both\<close> or \<open>all\<close>, the Reddit collector exactly when it is \<open>reddit\<close>,
  \<open>both\<close> or \<open>all\<close>, and the Twitter collector exactly when it is
  \<open>twitter\<close> or \<open>all\<close>, each at most once and in this order; and
  \<open>results\<close> holds, under \<open>news\<close>, \<open>reddit\<close> and \<open>twitter\<close>, what each
  called collector returned, and nothing for a collector that was not called.
\<close>

theorem orchestrator_selection:
  "\<exists>results.
     collect_results w req =
       (Inr results,
        (if source_type req \<in> {''news'', ''both'', ''all''} then [ScrapeNews (topics req)] else []) @
        (if source_type req \<in> {''reddit'', ''both'', ''all''} then [ScrapeReddit (topics req)] else []) @
        (if source_type req \<in> {''twitter'', ''all''} then [ScrapeTwitter (topics req)] else [])) \<and>
     map_option Inr (map_of results ''news'') =
       (if source_type req \<in> {''news'', ''both'', ''all''}
        then Some (fst (scrape_news (news_world w) (topics req))) else None) \<and>
     map_option Inr (map_of results ''reddit'') =
       (if source_type req \<in> {''reddit'', ''both'', ''all''}
        then Some (scrape_reddit_topics (cutoff_str w) (reddit_session w) (reddit_model w)
                     (topics req))
        else None) \<and>
     map_option Inr (map_of results ''twitter'') =
       (if source_type req \<in> {''twitter'', ''all''}
        then Some (scrape_twitter_topics (twitter_session w) (twitter_model w) (topics req))
        else None)"
proof -
  obtain r where r: "scrape_reddit_topics (cutoff_str w) (reddit_session w) (reddit_model w)
      (topics req) = Inr [(''reddit_analysis'', r)]"
    using scrape_reddit_topics_returns by blast
  obtain t where t: "scrape_twitter_topics (twitter_session w) (twitter_model w) (topics req) =
      Inr [(''twitter_analysis'', t)]"
    using scrape_twitter_topics_returns by blast
  show ?thesis
    by (simp add: collect_results_def news_step_returns reddit_step_returns twitter_step_returns
        r t scrape_news_returns update_conv')
qed

lemma collect_results_keyed:
  "\<exists>results. collect_results w req = (Inr results, snd (collect_results w req)) \<and>
     keyed (map_of results ''news'') ''news_analysis'' \<and>
     keyed (map_of results ''reddit'') ''reddit_analysis'' \<and>
     keyed (map_of results ''twitter'') ''twitter_analysis''"
proof -
  obtain r where r: "scrape_reddit_topics (cutoff_str w) (reddit_session w) (reddit_model w)
      (topics req) = Inr [(''reddit_analysis'', r)]"
    using scrape_reddit_topics_returns by blast
  obtain t where t: "scrape_twitter_topics (twitter_session w) (twitter_model w) (topics req) =
      Inr [(''twitter_analysis'', t)]"
    using scrape_twitter_topics_returns by blast
  show ?thesis
    by (simp add: collect_results_def news_step_returns reddit_step_returns twitter_step_returns
        r t update_conv' keyed_def)
qed

lemma request_body_composer:
  "\<exists>results. collect_results w req = (Inr results, snd (collect_results w req)) \<and>
     generate_broadcast_news (broadcast_model w) (map_of results ''news'')
        (map_of results ''reddit'') (map_of results ''twitter'') (topics req) =
       (broadcast_model w (composer_prompt w req), [composer_prompt w req])"
proof -
  from collect_results_keyed [of w req] obtain results where res:
    "collect_results w req = (Inr results, snd (collect_results w req))"
    "keyed (map_of results ''news'') ''news_analysis''"
    "keyed (map_of results ''reddit'') ''reddit_analysis''"
    "keyed (map_of results ''twitter'') ''twitter_analysis''" by blast
  from res(1) have f: "fst (collect_results w req) = Inr results" by (metis fst_conv)
  have "generate_broadcast_news (broadcast_model w) (map_of results ''news'')
        (map_of results ''reddit'') (map_of results ''twitter'') (topics req) =
       (broadcast_model w (composer_prompt w req), [composer_prompt w req])"
    by (simp add: generate_broadcast_news_def build_topic_blocks_keyed [OF res(2,3,4)]
        composer_prompt_def f)
  with res(1) show ?thesis by blast
qed

lemma startswith_en_US: "startswith ''en-US'' ''en''"
  by simp

lemma translation_step_eq:
  "translation_step w req summary_en =
     translate_for_language (translate_model w) summary_en (language req)"
  by (auto simp add: translation_step_def translate_for_language_def)

text \<open>
  C7. When the one model call of the composer fails, the request fails: the handler
  raises an \<open>HTTPException\<close> with status 500 whose detail is the string of the
  exception, after exactly one call of the composer's model, and neither the translator
  nor the audio step runs. When the composer answers, the language is not English and
  the model call of the translator fails, the request fails in the same way after
  exactly one call of each model.
\<close>

theorem composition_failure_is_fatal:
  "(broadcast_model w (composer_prompt w req) = Inl e \<longrightarrow>
      generate_news_audio w req =
        (Inl (HTTPException 500 (str_exn e)),
         snd (collect_results w req) @ [BroadcastModel (composer_prompt w req)])) \<and>
   (broadcast_model w (composer_prompt w req) = Inr summary_en \<and>
    \<not> startswith (language req) ''en'' \<and>
    translate_model w (translation_prompt summary_en (language req)) = Inl e \<longrightarrow>
      generate_news_audio w req =
        (Inl (HTTPException 500 (str_exn e)),
         snd (collect_results w req) @
         [BroadcastModel (composer_prompt w req),
          TranslateModel (translation_prompt summary_en (language req))]))"
proof -
  from request_body_composer [of w req] obtain results where res:
    "collect_results w req = (Inr results, snd (collect_results w req))"
    "generate_broadcast_news (broadcast_model w) (map_of results ''news'')
        (map_of results ''reddit'') (map_of results ''twitter'') (topics req) =
       (broadcast_model w (composer_prompt w req), [composer_prompt w req])" by blast
  define c1 where "c1 = snd (collect_results w req)"
  have cr: "collect_results w req = (Inr results, c1)"
    using res(1) by (simp add: c1_def)
  have first: "generate_news_audio w req =
        (Inl (HTTPException 500 (str_exn e)), c1 @ [BroadcastModel (composer_prompt w req)])"
    if "broadcast_model w (composer_prompt w req) = Inl e"
  proof -
    have "request_body w req = (Inl e, c1 @ [BroadcastModel (composer_prompt w req)])"
      using that res(2) by (simp add: request_body_def cr)
    then show ?thesis by (simp add: generate_news_audio_def)
  qed
  have second: "generate_news_audio w req =
        (Inl (HTTPException 500 (str_exn e)),
         c1 @ [BroadcastModel (composer_prompt w req),
               TranslateModel (translation_prompt summary_en (language req))])"
    if a: "broadcast_model w (composer_prompt w req) = Inr summary_en \<and>
      \<not> startswith (language req) ''en'' \<and>
      translate_model w (translation_prompt summary_en (language req)) = Inl e"
  proof -
    have "translation_step w req summary_en =
        (Inl e, [translation_prompt summary_en (language req)])"
      using a by (simp add: translation_step_eq translate_for_language_def)
    then have "request_body w req =
        (Inl e, c1 @ [BroadcastModel (composer_prompt w req),
                      TranslateModel (translation_prompt summary_en (language req))])"
      using a res(2) by (simp add: request_body_def cr)
    then show ?thesis by (simp add: generate_news_audio_def)
  qed
  from first second show ?thesis unfolding c1_def by blast
qed

lemma collect_results_calls:
  "snd (collect_results w req) =
     (if source_type req \<in> {''news'', ''both'', ''all''} then [ScrapeNews (topics req)] else []) @
     (if source_type req \<in> {''reddit'', ''both'', ''all''} then [ScrapeReddit (topics req)] else []) @
     (if source_type req \<in> {''twitter'', ''all''} then [ScrapeTwitter (topics req)] else [])"
  by (simp add: collect_results_def news_step_returns reddit_step_returns twitter_step_returns)

theorem composition_failure_is_fatal_witness:
  "broadcast_model composer_down_world (composer_prompt composer_down_world example_request) =
     Inl quota_error \<and>
   generate_news_audio composer_down_world example_request =
     (Inl (HTTPException 500 ''429 quota exceeded''),
      [ScrapeNews [''ai''], ScrapeReddit [''ai''],
       BroadcastModel (composer_prompt composer_down_world example_request)]) \<and>
   broadcast_model translator_down_world (composer_prompt translator_down_world example_request) =
     Inr ''script'' \<and>
   \<not> startswith (language example_request) ''en'' \<and>
   translate_model translator_down_world (translation_prompt ''script'' (language example_request)) =
     Inl quota_error \<and>
   generate_news_audio translator_down_world example_request =
     (Inl (HTTPException 500 ''429 quota exceeded''),
      [ScrapeNews [''ai''], ScrapeReddit [''ai''],
       BroadcastModel (composer_prompt translator_down_world example_request),
       TranslateModel (translation_prompt ''script'' ''hi-IN'')])"
  using composition_failure_is_fatal
      [where w = composer_down_world and req = example_request and e = quota_error,
       THEN conjunct1]
    composition_failure_is_fatal
      [where w = translator_down_world and req = example_request and e = quota_error
         and summary_en = "''script''", THEN conjunct2]
  by (simp add: collect_results_calls composer_down_world_def translator_down_world_def
      example_world_def example_request_def quota_error_def)

section \<open>The translator\<close>

text \<open>
  C8. \<open>translate_for_language\<close> returns its text unchanged, with no model call,
  when the target language starts with \<open>en\<close>, in particular for \<open>en-US\<close>; for
  any other target, such as \<open>hi-IN\<close>, it makes exactly one model call and returns
  the stripped answer or the exception of that call. The handler's translation block
  does the same as the function for every language.
\<close>

theorem translator_noop_or_single_call:
  "(startswith target_lang ''en'' \<longrightarrow>
      translate_for_language generate_content script target_lang = (Inr script, [])) \<and>
   translate_for_language generate_content script ''en-US'' = (Inr script, []) \<and>
   (\<not> startswith target_lang ''en'' \<longrightarrow>
      translate_for_language generate_content script target_lang =
        (case generate_content (translation_prompt script target_lang) of
           Inl e \<Rightarrow> Inl e
         | Inr translated \<Rightarrow> Inr (strip translated),
         [translation_prompt script target_lang])) \<and>
   length (snd (translate_for_language generate_content script ''hi-IN'')) = 1 \<and>
   translation_step w req script =
     translate_for_language (translate_model w) script (language req) \<and>
   (language req = ''en-US'' \<longrightarrow> translation_step w req script = (Inr script, []))"
  by (simp add: translate_for_language_def translation_step_eq)

theorem translator_noop_or_single_call_witness:
  "startswith ''en-IN'' ''en'' \<and>
   translate_for_language (translate_model example_world) ''script'' ''en-IN'' = (Inr ''script'', []) \<and>
   \<not> startswith ''hi-IN'' ''en'' \<and>
   translate_for_language (translate_model example_world) ''script'' ''hi-IN'' =
     (Inr ''anuvaad'', [translation_prompt ''script'' ''hi-IN'']) \<and>
   language (example_request\<lparr>language := ''en-US''\<rparr>) = ''en-US'' \<and>
   translation_step example_world (example_request\<lparr>language := ''en-US''\<rparr>) ''script'' =
     (Inr ''script'', [])"
  using translator_noop_or_single_call
      [where target_lang = "''en-IN''" and generate_content = "translate_model example_world"
         and script = "''script''" and w = example_world
         and req = "example_request\<lparr>language := ''en-US''\<rparr>", THEN conjunct1]
    translator_noop_or_single_call
      [where target_lang = "''hi-IN''" and generate_content = "translate_model example_world"
         and script = "''script''" and w = example_world
         and req = "example_request\<lparr>language := ''en-US''\<rparr>"]
  by (simp add: example_world_def strip_def whitespace_def)

section \<open>The voice\<close>

lemma voice_keys:
  "map fst VOICE_BY_LANG =
     [''en'', ''hi'', ''es'', ''fr'', ''de'', ''it'', ''ja'', ''ko'', ''pt'', ''ru'', ''zh'']"
  by (simp add: VOICE_BY_LANG_def)

lemma voice_default:
  "lang_code \<notin> set (map fst VOICE_BY_LANG) \<Longrightarrow> get_voice_for_language lang_code = ''en-US-natalie''"
proof -
  assume "lang_code \<notin> set (map fst VOICE_BY_LANG)"
  then have "map_of VOICE_BY_LANG lang_code = None"
    by (simp add: map_of_eq_None_iff)
  then show ?thesis by (simp add: get_voice_for_language_def)
qed

lemma voice_keys_length: "k \<in> set (map fst VOICE_BY_LANG) \<Longrightarrow> length k = 2"
  by (auto simp add: VOICE_BY_LANG_def)

text \<open>
  C10. For every locale code that is not one of the eleven two-letter keys of
  \<open>VOICE_BY_LANG\<close>, \<open>get_voice_for_language\<close> returns \<open>en-US-natalie\<close>;
  so does every code that is not two characters long, and every code the front end
  offers; for a language that is not two characters long the handler asks for the audio
  with this voice.
\<close>

theorem region_codes_get_default_voice:
  "(lang_code \<notin> set [''en'', ''hi'', ''es'', ''fr'', ''de'', ''it'', ''ja'', ''ko'', ''pt'', ''ru'', ''zh'']
      \<longrightarrow> get_voice_for_language lang_code = ''en-US-natalie'') \<and>
   map fst VOICE_BY_LANG =
     [''en'', ''hi'', ''es'', ''fr'', ''de'', ''it'', ''ja'', ''ko'', ''pt'', ''ru'', ''zh''] \<and>
   (length lang_code \<noteq> 2 \<longrightarrow> get_voice_for_language lang_code = ''en-US-natalie'') \<and>
   (\<forall>code \<in> set LANGS. get_voice_for_language code = ''en-US-natalie'') \<and>
   (length (language req) \<noteq> 2 \<longrightarrow>
      snd (audio_step w req script) = [Murf script ''en-US-natalie'' (language req)])"
proof (intro conjI impI)
  assume "lang_code \<notin> set [''en'', ''hi'', ''es'', ''fr'', ''de'', ''it'', ''ja'', ''ko'', ''pt'', ''ru'', ''zh'']"
  then show "get_voice_for_language lang_code = ''en-US-natalie''"
    using voice_default [of lang_code] by (simp add: voice_keys)
next
  show "map fst VOICE_BY_LANG =
     [''en'', ''hi'', ''es'', ''fr'', ''de'', ''it'', ''ja'', ''ko'', ''pt'', ''ru'', ''zh'']"
    by (rule voice_keys)
next
  assume "length lang_code \<noteq> 2"
  then show "get_voice_for_language lang_code = ''en-US-natalie''"
    using voice_keys_length [of lang_code] voice_default [of lang_code] by blast
next
  show all: "\<forall>code \<in> set LANGS. get_voice_for_language code = ''en-US-natalie''"
  proof
    fix code assume "code \<in> set LANGS"
    then have "length code \<noteq> 2" by (auto simp add: LANGS_def)
    then show "get_voice_for_language code = ''en-US-natalie''"
      using voice_keys_length [of code] voice_default [of code] by blast
  qed
  assume "length (language req) \<noteq> 2"
  then have "get_voice_for_language (language req) = ''en-US-natalie''"
    using voice_keys_length [of "language req"] voice_default [of "language req"] by blast
  then show "snd (audio_step w req script) = [Murf script ''en-US-natalie'' (language req)]"
    by (simp add: audio_step_def)
qed

theorem region_codes_get_default_voice_witness:
  "''hi-IN'' \<notin> set [''en'', ''hi'', ''es'', ''fr'', ''de'', ''it'', ''ja'', ''ko'', ''pt'', ''ru'', ''zh''] \<and>
   length ''hi-IN'' \<noteq> 2 \<and>
   get_voice_for_language ''hi-IN'' = ''en-US-natalie'' \<and>
   get_voice_for_language ''en-US'' = ''en-US-natalie'' \<and>
   get_voice_for_language ''hi'' = ''shweta'' \<and>
   length (language example_request) \<noteq> 2 \<and>
   snd (audio_step example_world example_request ''anuvaad'') =
     [Murf ''anuvaad'' ''en-US-natalie'' ''hi-IN'']"
  using region_codes_get_default_voice
      [where lang_code = "''hi-IN''" and req = example_request and w = example_world
         and script = "''anuvaad''"]
  by (simp add: LANGS_def example_request_def get_voice_for_language_def VOICE_BY_LANG_def)

end
